theory Spec2Isabelle
  imports Main "HOL-Library.Product_Lexorder" "HOL-Library.Multiset"
begin

section \<open>The task queue of scripts/queue-manager.py\<close>

text \<open>
  A shallow embedding of the priority task queue: the \<open>Priority\<close> enum, the \<open>Task\<close> and
  \<open>Batch\<close> dataclasses, the SQLite store \<open>QueueDatabase\<close>, the heap \<open>PriorityQueue\<close>, the
  \<open>BatchProcessor\<close> and the \<open>QueueManager\<close> facade.

  Conventions of the embedding.
  \<^item> Every timestamp of the source is the ISO-8601 text of a naive \<open>datetime\<close>
    (\<open>datetime.now().isoformat()\<close>). The model keeps the instant the text denotes, as an
    integer count of microseconds; on such texts \<open>fromisoformat\<close> inverts \<open>isoformat\<close> and
    the order of the texts is the order of the instants.
  \<^item> \<open>sort_timestamp\<close> is the float \<open>-timestamp()\<close> in seconds; the model keeps the negated
    instant in microseconds, which orders the same way.
  \<^item> The system clock is an input: \<open>clock\<close> holds the readings it will give, in order, and
    every \<open>datetime.now()\<close> or \<open>time.time()\<close> of the source consumes one.
  \<^item> Strings are ASCII texts.
  \<^item> Moving task files between the status directories (\<open>_move_task_file\<close>) and the metrics
    table touch neither the tasks nor their history and are left out.
\<close>

subsection \<open>Strings\<close>

datatype py_error = ValueError string | KeyError string | IndexError

definition upper_char :: "char \<Rightarrow> char" where
  "upper_char c =
     (case map_of (zip ''abcdefghijklmnopqrstuvwxyz'' ''ABCDEFGHIJKLMNOPQRSTUVWXYZ'') c of
        None \<Rightarrow> c
      | Some u \<Rightarrow> u)"

definition upper :: "string \<Rightarrow> string" where
  "upper s = map upper_char s"

definition is_space :: "char \<Rightarrow> bool" where
  "is_space c =
     (c \<in> set [CHR 0x09, CHR 0x0A, CHR 0x0B, CHR 0x0C, CHR 0x0D,
                CHR 0x1C, CHR 0x1D, CHR 0x1E, CHR 0x1F, CHR 0x20])"

definition strip :: "string \<Rightarrow> string" where
  "strip s = rev (dropWhile is_space (rev (dropWhile is_space s)))"

text \<open>\<open>str(n)\<close> for a natural number, as the f-strings of the identifiers render it.\<close>

fun str_nat :: "nat \<Rightarrow> string" where
  "str_nat n =
     (if n < 10 then [''0123456789'' ! n]
      else str_nat (n div 10) @ [''0123456789'' ! (n mod 10)])"

declare str_nat.simps [simp del]

subsection \<open>Priority, TaskStatus, TaskCategory\<close>

datatype Priority = P0_CRITICAL | P1_HIGH | P2_MEDIUM | P3_LOW

text \<open>\<open>int(p)\<close>, the value of the IntEnum member.\<close>

fun priority_value :: "Priority \<Rightarrow> int" where
  "priority_value P0_CRITICAL = 0"
| "priority_value P1_HIGH = 1"
| "priority_value P2_MEDIUM = 2"
| "priority_value P3_LOW = 3"

text \<open>\<open>p.name\<close>, the member's name.\<close>

fun priority_name :: "Priority \<Rightarrow> string" where
  "priority_name P0_CRITICAL = ''P0_CRITICAL''"
| "priority_name P1_HIGH = ''P1_HIGH''"
| "priority_name P2_MEDIUM = ''P2_MEDIUM''"
| "priority_name P3_LOW = ''P3_LOW''"

text \<open>
  The truth value of a member in a condition. An IntEnum member is an \<open>int\<close>, so it is
  true exactly when its value is not zero: \<open>P0_CRITICAL\<close> is false.
\<close>

definition priority_truthy :: "Priority \<Rightarrow> bool" where
  "priority_truthy p = (priority_value p \<noteq> 0)"

text \<open>\<open>Priority.from_string\<close>: the table maps twelve spellings; any other raises.\<close>

definition priority_mapping :: "(string \<times> Priority) list" where
  "priority_mapping =
     [(''P0'', P0_CRITICAL), (''CRITICAL'', P0_CRITICAL), (''P0-CRITICAL'', P0_CRITICAL),
      (''P1'', P1_HIGH), (''HIGH'', P1_HIGH), (''P1-HIGH'', P1_HIGH),
      (''P2'', P2_MEDIUM), (''MEDIUM'', P2_MEDIUM), (''P2-MEDIUM'', P2_MEDIUM),
      (''P3'', P3_LOW), (''LOW'', P3_LOW), (''P3-LOW'', P3_LOW)]"

definition from_string :: "string \<Rightarrow> py_error + Priority" where
  "from_string s0 =
     (let s = strip (upper s0)
      in case map_of priority_mapping s of
           Some p \<Rightarrow> Inr p
         | None \<Rightarrow> Inl (ValueError (''Unknown priority: '' @ s)))"

definition PENDING :: string where "PENDING = ''pending''"
definition RUNNING :: string where "RUNNING = ''running''"
definition COMPLETED :: string where "COMPLETED = ''completed''"
definition FAILED :: string where "FAILED = ''failed''"
definition BLOCKED :: string where "BLOCKED = ''blocked''"

definition OTHER :: string where "OTHER = ''other''"

text \<open>The categories in the order \<open>create_batches\<close> lists them.\<close>

definition batch_categories :: "string list" where
  "batch_categories =
     [''security'', ''backend'', ''frontend'', ''testing'', ''documentation'',
      ''devops'', ''refactoring'', ''bugfix'', ''feature'', ''other'']"

definition BATCH_SIZE_LIMIT :: nat where
  "BATCH_SIZE_LIMIT = 10"

subsection \<open>Task\<close>

type_synonym instant = int

text \<open>
  The nineteen columns of table \<open>tasks\<close>. A \<open>Task\<close> object is these and the two fields
  the dataclass compares by, \<open>sort_priority\<close> and \<open>sort_timestamp\<close>.
\<close>

record task_row =
  task_id :: string
  priority :: Priority
  original_priority :: "int option"
  description :: string
  category :: string
  status :: string
  assigned_agent :: "string option"
  verifier_agent :: "string option"
  created_at :: instant
  updated_at :: instant
  started_at :: "instant option"
  completed_at :: "instant option"
  boost_count :: int
  batch_id :: "string option"
  metadata :: "(string \<times> string) list"
  retry_count :: int
  max_retries :: int
  dependencies :: "string list"
  tags :: "string list"

record Task = task_row +
  sort_priority :: int
  sort_timestamp :: int

text \<open>\<open>Task.__post_init__\<close>.\<close>

definition post_init :: "Task \<Rightarrow> Task" where
  "post_init t0 =
     (let t1 = (if sort_priority t0 = 0 \<and> priority_truthy (priority t0)
                then t0\<lparr>sort_priority := priority_value (priority t0)\<rparr> else t0);
          t2 = (if sort_timestamp t1 = 0
                then t1\<lparr>sort_timestamp := - created_at t1\<rparr> else t1)
      in if original_priority t2 = None
         then t2\<lparr>original_priority := Some (priority_value (priority t2))\<rparr> else t2)"

text \<open>
  \<open>Task.create\<close>: \<open>now\<close> is the one clock reading it takes; the keyword arguments the
  callers pass are the agents, the dependencies and the tags.
\<close>

definition create ::
  "instant \<Rightarrow> string \<Rightarrow> string \<Rightarrow> Priority \<Rightarrow> string \<Rightarrow> string option \<Rightarrow> string option \<Rightarrow>
   string list \<Rightarrow> string list \<Rightarrow> Task" where
  "create now tid descr prio cat agent verifier deps tgs =
     post_init
       \<lparr>task_id = tid, priority = prio, original_priority = Some (priority_value prio),
        description = descr, category = cat, status = PENDING,
        assigned_agent = agent, verifier_agent = verifier,
        created_at = now, updated_at = now, started_at = None, completed_at = None,
        boost_count = 0, batch_id = None, metadata = [], retry_count = 0, max_retries = 3,
        dependencies = deps, tags = tgs,
        sort_priority = priority_value prio, sort_timestamp = - now\<rparr>"

text \<open>
  The order of the dataclass (\<open>order=True\<close>): the tuples
  \<open>(sort_priority, sort_timestamp)\<close> compared lexicographically.
\<close>

definition task_lt :: "Task \<Rightarrow> Task \<Rightarrow> bool" where
  "task_lt a b =
     (sort_priority a < sort_priority b \<or>
      (sort_priority a = sort_priority b \<and> sort_timestamp a < sort_timestamp b))"

subsection \<open>The external record of a task\<close>

text \<open>
  The dict \<open>to_dict\<close> builds and \<open>from_dict\<close> reads: one entry per key, \<open>None\<close> when
  the key is absent. A key whose Task field is optional holds that optional value
  when present.
\<close>

record TaskDict =
  d_task_id :: "string option"
  d_priority :: "string option"
  d_priority_value :: "int option"
  d_description :: "string option"
  d_category :: "string option"
  d_status :: "string option"
  d_assigned_agent :: "string option option"
  d_verifier_agent :: "string option option"
  d_created_at :: "instant option"
  d_updated_at :: "instant option"
  d_started_at :: "instant option option"
  d_completed_at :: "instant option option"
  d_original_priority :: "int option option"
  d_boost_count :: "int option"
  d_batch_id :: "string option option"
  d_metadata :: "(string \<times> string) list option"
  d_retry_count :: "int option"
  d_max_retries :: "int option"
  d_dependencies :: "string list option"
  d_tags :: "string list option"

definition to_dict :: "Task \<Rightarrow> TaskDict" where
  "to_dict t =
     \<lparr>d_task_id = Some (task_id t),
      d_priority = Some (priority_name (priority t)),
      d_priority_value = Some (priority_value (priority t)),
      d_description = Some (description t),
      d_category = Some (category t),
      d_status = Some (status t),
      d_assigned_agent = Some (assigned_agent t),
      d_verifier_agent = Some (verifier_agent t),
      d_created_at = Some (created_at t),
      d_updated_at = Some (updated_at t),
      d_started_at = Some (started_at t),
      d_completed_at = Some (completed_at t),
      d_original_priority = Some (original_priority t),
      d_boost_count = Some (boost_count t),
      d_batch_id = Some (batch_id t),
      d_metadata = Some (metadata t),
      d_retry_count = Some (retry_count t),
      d_max_retries = Some (max_retries t),
      d_dependencies = Some (dependencies t),
      d_tags = Some (tags t)\<rparr>"

text \<open>\<open>data.get(key, default)\<close> and \<open>data.get(key)\<close>.\<close>

definition dict_get :: "'a option \<Rightarrow> 'a \<Rightarrow> 'a" where
  "dict_get entry dflt = (case entry of None \<Rightarrow> dflt | Some v \<Rightarrow> v)"

definition dict_get_opt :: "'a option option \<Rightarrow> 'a option" where
  "dict_get_opt entry = (case entry of None \<Rightarrow> None | Some v \<Rightarrow> v)"

text \<open>
  \<open>Task.from_dict\<close>. \<open>now1\<close> and \<open>now2\<close> are the clock readings of the two defaults
  \<open>datetime.now().isoformat()\<close>. The priority is parsed first; \<open>data["task_id"]\<close> raises
  KeyError when the key is absent.
\<close>

definition from_dict :: "instant \<Rightarrow> instant \<Rightarrow> TaskDict \<Rightarrow> py_error + Task" where
  "from_dict now1 now2 data =
     (case from_string (dict_get (d_priority data) ''P2'') of
        Inl e \<Rightarrow> Inl e
      | Inr prio \<Rightarrow>
          (let created = dict_get (d_created_at data) now1
           in case d_task_id data of
                None \<Rightarrow> Inl (KeyError ''task_id'')
              | Some tid \<Rightarrow>
                  Inr (post_init
                    \<lparr>task_id = tid, priority = prio,
                     original_priority = dict_get_opt (d_original_priority data),
                     description = dict_get (d_description data) [],
                     category = dict_get (d_category data) OTHER,
                     status = dict_get (d_status data) PENDING,
                     assigned_agent = dict_get_opt (d_assigned_agent data),
                     verifier_agent = dict_get_opt (d_verifier_agent data),
                     created_at = created,
                     updated_at = dict_get (d_updated_at data) now2,
                     started_at = dict_get_opt (d_started_at data),
                     completed_at = dict_get_opt (d_completed_at data),
                     boost_count = dict_get (d_boost_count data) 0,
                     batch_id = dict_get_opt (d_batch_id data),
                     metadata = dict_get (d_metadata data) [],
                     retry_count = dict_get (d_retry_count data) 0,
                     max_retries = dict_get (d_max_retries data) 3,
                     dependencies = dict_get (d_dependencies data) [],
                     tags = dict_get (d_tags data) [],
                     sort_priority = dict_get (d_priority_value data) (priority_value prio),
                     sort_timestamp = - created\<rparr>)))"

subsection \<open>heapq\<close>

text \<open>
  The standard library's binary heap on a list, with the dataclass order \<open><\<close>.
  \<open>_siftdown(heap, startpos, pos)\<close> carries \<open>newitem = heap[pos]\<close> towards the root while it
  is smaller than the parent at \<open>(pos - 1) >> 1\<close>. It is called with \<open>pos < len(heap)\<close> only.
\<close>

function siftdown_loop :: "Task list \<Rightarrow> nat \<Rightarrow> nat \<Rightarrow> Task \<Rightarrow> Task list" where
  "siftdown_loop heap startpos pos newitem =
     (if startpos < pos
      then (if task_lt newitem (heap ! ((pos - 1) div 2))
            then siftdown_loop (heap[pos := heap ! ((pos - 1) div 2)]) startpos
                   ((pos - 1) div 2) newitem
            else heap[pos := newitem])
      else heap[pos := newitem])"
  by pat_completeness auto
termination
  by (relation "measure (\<lambda>(heap, startpos, pos, newitem). pos)") auto

declare siftdown_loop.simps [simp del]

definition siftdown :: "Task list \<Rightarrow> nat \<Rightarrow> nat \<Rightarrow> Task list" where
  "siftdown heap startpos pos = siftdown_loop heap startpos pos (heap ! pos)"

text \<open>
  \<open>_siftup(heap, pos)\<close>: the smaller child moves up until a leaf is reached, then the
  item that stood at \<open>pos\<close> is put at the leaf and sifted down to its place.
\<close>

definition smaller_child :: "Task list \<Rightarrow> nat \<Rightarrow> nat \<Rightarrow> nat" where
  "smaller_child heap endpos childpos =
     (if childpos + 1 < endpos \<and> \<not> task_lt (heap ! childpos) (heap ! (childpos + 1))
      then childpos + 1 else childpos)"

function siftup_loop :: "Task list \<Rightarrow> nat \<Rightarrow> nat \<Rightarrow> nat \<times> Task list" where
  "siftup_loop heap endpos pos =
     (if 2 * pos + 1 < endpos
      then siftup_loop (heap[pos := heap ! smaller_child heap endpos (2 * pos + 1)]) endpos
             (smaller_child heap endpos (2 * pos + 1))
      else (pos, heap))"
  by pat_completeness auto
termination
  by (relation "measure (\<lambda>(heap, endpos, pos). endpos - pos)")
     (auto simp: smaller_child_def)

declare siftup_loop.simps [simp del]

definition siftup :: "Task list \<Rightarrow> nat \<Rightarrow> Task list" where
  "siftup heap pos =
     (let newitem = heap ! pos;
          (leaf, heap1) = siftup_loop heap (length heap) pos
      in siftdown (heap1[leaf := newitem]) pos leaf)"

definition heappush :: "Task list \<Rightarrow> Task \<Rightarrow> Task list" where
  "heappush heap item = siftdown (heap @ [item]) 0 (length heap)"

text \<open>\<open>heappop\<close> raises IndexError on the empty list.\<close>

definition heappop :: "Task list \<Rightarrow> py_error + (Task \<times> Task list)" where
  "heappop heap =
     (if heap = [] then Inl IndexError
      else (let lastelt = last heap; heap1 = butlast heap
            in if heap1 \<noteq> [] then Inr (heap1 ! 0, siftup (heap1[0 := lastelt]) 0)
               else Inr (lastelt, heap1)))"

text \<open>\<open>heapify\<close>: \<open>_siftup\<close> at every index of \<open>reversed(range(n // 2))\<close>.\<close>

definition heapify :: "Task list \<Rightarrow> Task list" where
  "heapify x = foldl siftup x (rev [0 ..< length x div 2])"

lemma length_siftdown_loop [simp]:
  "length (siftdown_loop heap startpos pos newitem) = length heap"
  by (induction heap startpos pos newitem rule: siftdown_loop.induct)
     (subst siftdown_loop.simps, simp)

lemma length_siftdown [simp]: "length (siftdown heap startpos pos) = length heap"
  by (simp add: siftdown_def)

lemma length_siftup_loop [simp]: "length (snd (siftup_loop heap endpos pos)) = length heap"
  by (induction heap endpos pos rule: siftup_loop.induct)
     (subst siftup_loop.simps, simp)

lemma length_siftup [simp]: "length (siftup heap pos) = length heap"
  by (simp add: siftup_def Let_def split_beta)

lemma length_heappop:
  "heappop heap = Inr (item, heap1) \<Longrightarrow> length heap1 < length heap"
  by (auto simp: heappop_def Let_def split: if_splits)

subsection \<open>QueueDatabase\<close>

text \<open>
  The three tables the queue uses. \<open>tbl_tasks\<close> lists the rows of \<open>tasks\<close> in rowid
  order: \<open>INSERT OR REPLACE\<close> deletes the row with the same primary key and inserts the
  new row with the next rowid, that is, at the end. \<open>task_history\<close> is append-only; its
  foreign key is not enforced (SQLite enforces none unless asked to).
\<close>

record history_event =
  h_task_id :: string
  h_action :: string
  h_old_value :: "string option"
  h_new_value :: "string option"
  h_timestamp :: instant

record batch_row =
  br_batch_id :: string
  br_category :: string
  br_priority :: Priority
  br_created_at :: instant
  br_status :: string

record Database =
  tbl_tasks :: "task_row list"
  tbl_task_history :: "history_event list"
  tbl_batches :: "batch_row list"

text \<open>
  A \<open>Batch\<close> object. Its fields are \<open>batch_id\<close>, \<open>category\<close>, \<open>priority\<close>, \<open>tasks\<close>,
  \<open>created_at\<close> and \<open>status\<close>; the prefix keeps them apart from the fields of a task.
\<close>

record Batch =
  b_batch_id :: string
  b_category :: string
  b_priority :: Priority
  b_tasks :: "Task list"
  b_created_at :: instant
  b_status :: string

text \<open>
  The state the operations run on.
  \<^item> \<open>db\<close>: the durable store.
  \<^item> \<open>commits\<close>: the durable states the store has passed through, one per committed
    write. Every method of \<open>QueueDatabase\<close> opens its own connection
    (\<open>_get_connection\<close>) and commits when its \<open>with\<close> block ends, so every writing
    method is one transaction and adds one entry. Reads commit nothing new.
  \<^item> \<open>heap\<close>, \<open>task_map\<close>: \<open>PriorityQueue._heap\<close> and \<open>_task_map\<close>. A Python dict keeps
    its keys in insertion order, which \<open>_rebuild_heap\<close> reads, so the map is an
    association list.
  \<^item> \<open>batch_counter\<close>: \<open>BatchProcessor._batch_counter\<close>.
  \<^item> \<open>clock\<close>: the readings the system clock will give.
\<close>

record QueueManager =
  db :: Database
  commits :: "Database list"
  heap :: "Task list"
  task_map :: "(string \<times> Task) list"
  batch_counter :: nat
  clock :: "nat \<Rightarrow> instant"

definition now :: "QueueManager \<Rightarrow> instant \<times> QueueManager" where
  "now st = (clock st 0, st\<lparr>clock := (\<lambda>n. clock st (Suc n))\<rparr>)"

definition commit :: "Database \<Rightarrow> QueueManager \<Rightarrow> QueueManager" where
  "commit d st = st\<lparr>db := d, commits := commits st @ [d]\<rparr>"

text \<open>Python dict operations on the association list.\<close>

fun dict_set :: "(string \<times> 'v) list \<Rightarrow> string \<Rightarrow> 'v \<Rightarrow> (string \<times> 'v) list" where
  "dict_set [] k v = [(k, v)]"
| "dict_set ((k1, v1) # m) k v = (if k1 = k then (k, v) # m else (k1, v1) # dict_set m k v)"

definition dict_del :: "(string \<times> 'v) list \<Rightarrow> string \<Rightarrow> (string \<times> 'v) list" where
  "dict_del m k = filter (\<lambda>(k1, v1). k1 \<noteq> k) m"

definition dict_in :: "string \<Rightarrow> (string \<times> 'v) list \<Rightarrow> bool" where
  "dict_in k m = (map_of m k \<noteq> None)"

definition dict_values :: "(string \<times> 'v) list \<Rightarrow> 'v list" where
  "dict_values m = map snd m"

text \<open>The row \<open>save_task\<close> writes, and \<open>_row_to_task\<close>.\<close>

definition row_of_task :: "Task \<Rightarrow> task_row" where
  "row_of_task t =
     \<lparr>task_id = task_id t, priority = priority t, original_priority = original_priority t,
      description = description t, category = category t, status = status t,
      assigned_agent = assigned_agent t, verifier_agent = verifier_agent t,
      created_at = created_at t, updated_at = updated_at t, started_at = started_at t,
      completed_at = completed_at t, boost_count = boost_count t, batch_id = batch_id t,
      metadata = metadata t, retry_count = retry_count t, max_retries = max_retries t,
      dependencies = dependencies t, tags = tags t\<rparr>"

definition row_to_task :: "task_row \<Rightarrow> Task" where
  "row_to_task r =
     post_init
       \<lparr>task_id = task_id r, priority = priority r, original_priority = original_priority r,
        description = description r, category = category r, status = status r,
        assigned_agent = assigned_agent r, verifier_agent = verifier_agent r,
        created_at = created_at r, updated_at = updated_at r, started_at = started_at r,
        completed_at = completed_at r, boost_count = boost_count r, batch_id = batch_id r,
        metadata = metadata r, retry_count = retry_count r, max_retries = max_retries r,
        dependencies = dependencies r, tags = tags r,
        sort_priority = priority_value (priority r), sort_timestamp = - created_at r\<rparr>"

definition insert_or_replace :: "task_row \<Rightarrow> task_row list \<Rightarrow> task_row list" where
  "insert_or_replace r rows = filter (\<lambda>r1. task_id r1 \<noteq> task_id r) rows @ [r]"

definition save_task :: "Task \<Rightarrow> QueueManager \<Rightarrow> QueueManager" where
  "save_task task st =
     commit ((db st)\<lparr>tbl_tasks := insert_or_replace (row_of_task task) (tbl_tasks (db st))\<rparr>) st"

definition get_task :: "Database \<Rightarrow> string \<Rightarrow> Task option" where
  "get_task d tid = map_option row_to_task (find (\<lambda>r. task_id r = tid) (tbl_tasks d))"

text \<open>
  The queries. \<open>ORDER BY\<close> is a sort of the selected rows by the columns it names; SQL
  leaves the order of rows that agree on them open, and the model keeps such rows in
  rowid order (a stable sort), as SQLite's sorter does.
\<close>

definition get_pending_tasks :: "Database \<Rightarrow> Task list" where
  "get_pending_tasks d =
     map row_to_task
       (sort_key (\<lambda>r. (priority_value (priority r), created_at r))
          (filter (\<lambda>r. status r = ''pending'') (tbl_tasks d)))"

definition get_tasks_by_status :: "Database \<Rightarrow> string \<Rightarrow> Task list" where
  "get_tasks_by_status d s =
     map row_to_task
       (sort_key (\<lambda>r. (priority_value (priority r), created_at r))
          (filter (\<lambda>r. status r = s) (tbl_tasks d)))"

text \<open>\<open>if status:\<close> holds for a string that is neither \<open>None\<close> nor empty.\<close>

definition str_truthy :: "string option \<Rightarrow> bool" where
  "str_truthy s = (case s of None \<Rightarrow> False | Some v \<Rightarrow> v \<noteq> [])"

definition get_tasks_by_category :: "Database \<Rightarrow> string \<Rightarrow> string option \<Rightarrow> Task list" where
  "get_tasks_by_category d cat s =
     (if str_truthy s
      then map row_to_task
             (sort_key (\<lambda>r. priority_value (priority r))
                (filter (\<lambda>r. category r = cat \<and> Some (status r) = s) (tbl_tasks d)))
      else map row_to_task
             (sort_key (\<lambda>r. priority_value (priority r))
                (filter (\<lambda>r. category r = cat) (tbl_tasks d))))"

definition delete_task :: "string \<Rightarrow> QueueManager \<Rightarrow> bool \<times> QueueManager" where
  "delete_task tid st =
     (find (\<lambda>r. task_id r = tid) (tbl_tasks (db st)) \<noteq> None,
      commit ((db st)\<lparr>tbl_tasks := filter (\<lambda>r. task_id r \<noteq> tid) (tbl_tasks (db st))\<rparr>) st)"

definition record_history ::
  "string \<Rightarrow> string \<Rightarrow> string option \<Rightarrow> string option \<Rightarrow> QueueManager \<Rightarrow> QueueManager" where
  "record_history tid act old new st0 =
     (let (t, st1) = now st0
      in commit ((db st1)\<lparr>tbl_task_history := tbl_task_history (db st1) @
                   [\<lparr>h_task_id = tid, h_action = act, h_old_value = old, h_new_value = new,
                     h_timestamp = t\<rparr>]\<rparr>) st1)"

definition save_batch :: "Batch \<Rightarrow> QueueManager \<Rightarrow> QueueManager" where
  "save_batch b st =
     commit ((db st)\<lparr>tbl_batches :=
                filter (\<lambda>r. br_batch_id r \<noteq> b_batch_id b) (tbl_batches (db st)) @
                [\<lparr>br_batch_id = b_batch_id b, br_category = b_category b,
                  br_priority = b_priority b, br_created_at = b_created_at b,
                  br_status = b_status b\<rparr>]\<rparr>) st"

subsection \<open>PriorityQueue\<close>

text \<open>\<open>_load_from_db\<close>: the heap and the map a new \<open>PriorityQueue\<close> starts with.\<close>

definition load_from_db :: "Database \<Rightarrow> Task list \<times> (string \<times> Task) list" where
  "load_from_db d =
     foldl (\<lambda>(h, m) task. (heappush h task, dict_set m (task_id task) task)) ([], [])
       (get_pending_tasks d)"

text \<open>\<open>QueueManager.__init__\<close> on an existing store, with the clock to come.\<close>

definition new_manager :: "Database \<Rightarrow> (nat \<Rightarrow> instant) \<Rightarrow> QueueManager" where
  "new_manager d clk =
     \<lparr>db = d, commits = [], heap = fst (load_from_db d), task_map = snd (load_from_db d),
      batch_counter = 0, clock = clk\<rparr>"

text \<open>
  \<open>add\<close> sets the status and \<open>updated_at\<close> on the caller's object; the model returns
  the object with the state.
\<close>

definition add :: "Task \<Rightarrow> QueueManager \<Rightarrow> Task \<times> QueueManager" where
  "add task0 st0 =
     (let (t, st1) = now st0;
          task = task0\<lparr>status := PENDING, updated_at := t\<rparr>;
          st2 = save_task task st1;
          st3 = record_history (task_id task) ''created'' None
                  (Some (priority_name (priority task))) st2
      in (task, st3\<lparr>task_map := dict_set (task_map st3) (task_id task) task,
                    heap := heappush (heap st3) task\<rparr>))"

text \<open>
  The loop of \<open>pop\<close>, on the store, the heap and the map: it returns the task (or
  \<open>None\<close>) with the heap and the map it leaves. \<open>heappop\<close> is reached with a heap
  that is not empty only, so its IndexError is never raised here (nor in \<open>peek\<close>).
\<close>

function pop_loop ::
  "Database \<Rightarrow> Task list \<Rightarrow> (string \<times> Task) list \<Rightarrow>
   Task option \<times> Task list \<times> (string \<times> Task) list" where
  "pop_loop d h m =
     (if h = [] then (None, h, m)
      else (case heappop h of
              Inl e \<Rightarrow> (None, h, m)
            | Inr (task, h1) \<Rightarrow>
                (if dict_in (task_id task) m
                 then (case get_task d (task_id task) of
                         Some current \<Rightarrow>
                           (if status current = PENDING
                            then (Some current, h1, dict_del m (task_id task))
                            else pop_loop d h1 m)
                       | None \<Rightarrow> pop_loop d h1 m)
                 else pop_loop d h1 m)))"
  by pat_completeness auto
termination
  by (relation "measure (\<lambda>(d, h, m). length h)") (auto dest: length_heappop)

declare pop_loop.simps [simp del]

definition pop :: "QueueManager \<Rightarrow> Task option \<times> QueueManager" where
  "pop st =
     (let (r, h, m) = pop_loop (db st) (heap st) (task_map st)
      in (r, st\<lparr>heap := h, task_map := m\<rparr>))"

text \<open>The loop of \<open>peek\<close>: stale entries at the root are popped and dropped.\<close>

function peek_loop ::
  "Database \<Rightarrow> Task list \<Rightarrow> (string \<times> Task) list \<Rightarrow> Task option \<times> Task list" where
  "peek_loop d h m =
     (if h = [] then (None, h)
      else (let task = h ! 0
            in (case (if dict_in (task_id task) m then get_task d (task_id task) else None) of
                  Some current \<Rightarrow>
                    (if status current = PENDING then (Some current, h)
                     else (case heappop h of
                             Inl e \<Rightarrow> (None, h)
                           | Inr (x, h1) \<Rightarrow> peek_loop d h1 m))
                | None \<Rightarrow>
                    (case heappop h of
                       Inl e \<Rightarrow> (None, h)
                     | Inr (x, h1) \<Rightarrow> peek_loop d h1 m))))"
  by pat_completeness auto
termination
  by (relation "measure (\<lambda>(d, h, m). length h)") (auto dest: length_heappop)

declare peek_loop.simps [simp del]

definition peek :: "QueueManager \<Rightarrow> Task option \<times> QueueManager" where
  "peek st =
     (let (r, h) = peek_loop (db st) (heap st) (task_map st)
      in (r, st\<lparr>heap := h\<rparr>))"

definition rebuild_heap :: "QueueManager \<Rightarrow> QueueManager" where
  "rebuild_heap st = st\<lparr>heap := heapify (dict_values (task_map st))\<rparr>"

definition update_priority ::
  "string \<Rightarrow> Priority \<Rightarrow> bool \<Rightarrow> QueueManager \<Rightarrow> bool \<times> QueueManager" where
  "update_priority tid new_priority is_boost st0 =
     (case get_task (db st0) tid of
        None \<Rightarrow> (False, st0)
      | Some task0 \<Rightarrow>
          (let old_priority = priority task0;
               (t, st1) = now st0;
               task1 = task0\<lparr>priority := new_priority,
                             sort_priority := priority_value new_priority,
                             updated_at := t\<rparr>;
               task2 = (if is_boost then task1\<lparr>boost_count := boost_count task1 + 1\<rparr>
                        else task1);
               st2 = record_history tid
                       (if is_boost then ''priority_boost'' else ''priority_change'')
                       (Some (priority_name old_priority))
                       (Some (priority_name new_priority)) st1;
               st3 = save_task task2 st2;
               st4 = (if dict_in tid (task_map st3)
                      then rebuild_heap (st3\<lparr>task_map := dict_set (task_map st3) tid task2\<rparr>)
                      else st3)
           in (True, st4)))"

text \<open>
  \<open>apply_age_boosts\<close>. The age in hours is compared with the threshold of the task's
  tier; the model compares the age in microseconds with the threshold in microseconds.
  \<open>new_priority\<close> is the tier chosen, if any; the update runs \<open>if new_priority:\<close>.
\<close>

definition P3_to_P2 :: int where "P3_to_P2 = 4"
definition P2_to_P1 :: int where "P2_to_P1 = 8"
definition P1_to_P0 :: int where "P1_to_P0 = 24"

definition age_reached :: "instant \<Rightarrow> instant \<Rightarrow> int \<Rightarrow> bool" where
  "age_reached current created hours = (hours * 3600000000 \<le> current - created)"

definition new_priority_for :: "instant \<Rightarrow> Task \<Rightarrow> Priority option" where
  "new_priority_for current task =
     (if priority task = P3_LOW
      then (if age_reached current (created_at task) P3_to_P2 then Some P2_MEDIUM else None)
      else if priority task = P2_MEDIUM
      then (if age_reached current (created_at task) P2_to_P1 then Some P1_HIGH else None)
      else if priority task = P1_HIGH
      then (if age_reached current (created_at task) P1_to_P0 then Some P0_CRITICAL else None)
      else None)"

fun age_boost_loop :: "instant \<Rightarrow> Task list \<Rightarrow> int \<Rightarrow> QueueManager \<Rightarrow> int \<times> QueueManager" where
  "age_boost_loop current [] boosted st = (boosted, st)"
| "age_boost_loop current (task # rest) boosted st =
     (case new_priority_for current task of
        None \<Rightarrow> age_boost_loop current rest boosted st
      | Some np \<Rightarrow>
          (if priority_truthy np
           then age_boost_loop current rest (boosted + 1)
                  (snd (update_priority (task_id task) np True st))
           else age_boost_loop current rest boosted st))"

definition apply_age_boosts :: "QueueManager \<Rightarrow> int \<times> QueueManager" where
  "apply_age_boosts st0 =
     (let (current, st1) = now st0
      in age_boost_loop current (get_pending_tasks (db st1)) 0 st1)"

definition size_queue :: "QueueManager \<Rightarrow> nat" where
  "size_queue st = length (task_map st)"

definition is_empty :: "QueueManager \<Rightarrow> bool" where
  "is_empty st = (size_queue st = 0)"

definition get_by_priority :: "QueueManager \<Rightarrow> Priority \<Rightarrow> Task list" where
  "get_by_priority st p = filter (\<lambda>t. priority t = p) (dict_values (task_map st))"

subsection \<open>BatchProcessor\<close>

text \<open>\<open>int(time.time())\<close> of a clock reading, and \<open>str\<close> of an integer.\<close>

definition time_seconds :: "instant \<Rightarrow> int" where
  "time_seconds t = (if t < 0 then - ((- t) div 1000000) else t div 1000000)"

definition str_int :: "int \<Rightarrow> string" where
  "str_int i = (if i < 0 then ''-'' @ str_nat (nat (- i)) else str_nat (nat i))"

definition generate_batch_id :: "QueueManager \<Rightarrow> string \<times> QueueManager" where
  "generate_batch_id st0 =
     (let st1 = st0\<lparr>batch_counter := batch_counter st0 + 1\<rparr>;
          (t, st2) = now st1
      in (''batch_'' @ str_int (time_seconds t) @ ''_'' @ str_nat (batch_counter st2), st2))"

text \<open>
  \<open>Batch.add_task\<close>: the answer, the batch and the task as the call leaves them.
\<close>

definition add_task_to_batch :: "Batch \<Rightarrow> Task \<Rightarrow> bool \<times> Batch \<times> Task" where
  "add_task_to_batch b task =
     (if BATCH_SIZE_LIMIT \<le> length (b_tasks b) then (False, b, task)
      else if category task \<noteq> b_category b then (False, b, task)
      else (let task1 = task\<lparr>batch_id := Some (b_batch_id b)\<rparr>
            in (True, b\<lparr>b_tasks := b_tasks b @ [task1]\<rparr>, task1)))"

text \<open>
  The loop over the tasks of one priority and category. \<open>current_batch\<close>, when it is
  not \<open>None\<close>, is the object last appended to \<open>batches\<close>, and \<open>add_task\<close> changes it
  through that alias: the model keeps the flag \<open>has_current\<close> and changes the last
  element of \<open>batches\<close>. A new \<open>Batch\<close> takes its identifier, then the clock reading of
  its \<open>created_at\<close>.
\<close>

fun pack_loop ::
  "string \<Rightarrow> Priority \<Rightarrow> Task list \<Rightarrow> bool \<Rightarrow> Batch list \<Rightarrow> QueueManager \<Rightarrow>
   bool \<times> Batch list \<times> QueueManager" where
  "pack_loop cat prio [] has_current batches st = (has_current, batches, st)"
| "pack_loop cat prio (task # rest) has_current batches st0 =
     (let (batches1, st1) =
            (if \<not> has_current \<or> BATCH_SIZE_LIMIT \<le> length (b_tasks (last batches))
             then (let (bid, sta) = generate_batch_id st0;
                       (t, stb) = now sta
                   in (batches @ [\<lparr>b_batch_id = bid, b_category = cat, b_priority = prio,
                                    b_tasks = [], b_created_at = t, b_status = PENDING\<rparr>], stb))
             else (batches, st0));
          (ok, b, task1) = add_task_to_batch (last batches1) task;
          st2 = save_task task1 st1
      in pack_loop cat prio rest True (butlast batches1 @ [b]) st2)"

definition batch_pair ::
  "Priority \<Rightarrow> Batch list \<times> QueueManager \<Rightarrow> string \<Rightarrow> Batch list \<times> QueueManager" where
  "batch_pair prio acc cat =
     (let (batches, st) = acc;
          tasks = filter (\<lambda>t. priority t = prio)
                    (get_tasks_by_category (db st) cat (Some PENDING))
      in if tasks = [] then (batches, st)
         else (let (has_current, batches1, st1) = pack_loop cat prio tasks False batches st
               in if has_current then (batches1, save_batch (last batches1) st1)
                  else (batches1, st1)))"

definition create_batches :: "QueueManager \<Rightarrow> Batch list \<times> QueueManager" where
  "create_batches st =
     foldl (\<lambda>acc prio. foldl (batch_pair prio) acc batch_categories) ([], st)
       [P0_CRITICAL, P1_HIGH, P2_MEDIUM, P3_LOW]"

definition get_next_batch :: "QueueManager \<Rightarrow> Batch option \<times> QueueManager" where
  "get_next_batch st0 =
     (let (batches, st1) = create_batches st0
      in if batches = [] then (None, st1)
         else (Some (hd (sort_key (\<lambda>b. (priority_value (b_priority b), b_created_at b)) batches)),
               st1))"

subsection \<open>QueueManager\<close>

text \<open>
  \<open>add_task\<close>: the identifier is made of the clock's seconds and the process id
  \<open>pid\<close>; an unknown priority raises before anything is stored.
\<close>

definition add_task ::
  "nat \<Rightarrow> string \<Rightarrow> string \<Rightarrow> string \<Rightarrow> string option \<Rightarrow> string option \<Rightarrow> string list \<Rightarrow>
   string list \<Rightarrow> QueueManager \<Rightarrow> py_error + (Task \<times> QueueManager)" where
  "add_task pid descr prio cat agent verifier deps tgs st0 =
     (let (t1, st1) = now st0;
          tid = ''task_'' @ str_int (time_seconds t1) @ ''_'' @ str_nat pid
      in case from_string prio of
           Inl e \<Rightarrow> Inl e
         | Inr p \<Rightarrow>
             (let (t2, st2) = now st1
              in Inr (add (create t2 tid descr p cat agent verifier deps tgs) st2)))"

definition get_next_task :: "QueueManager \<Rightarrow> Task option \<times> QueueManager" where
  "get_next_task st0 = (let (n, st1) = apply_age_boosts st0 in peek st1)"

definition start_task :: "string \<Rightarrow> string option \<Rightarrow> QueueManager \<Rightarrow> Task option \<times> QueueManager" where
  "start_task tid agent st0 =
     (case get_task (db st0) tid of
        None \<Rightarrow> (None, st0)
      | Some task0 \<Rightarrow>
          (let (t1, st1) = now st0;
               (t2, st2) = now st1;
               task1 = task0\<lparr>status := RUNNING, started_at := Some t1, updated_at := t2\<rparr>;
               task2 = (if str_truthy agent then task1\<lparr>assigned_agent := agent\<rparr> else task1);
               st3 = save_task task2 st2;
               st4 = record_history tid ''started'' (Some PENDING) (Some RUNNING) st3
           in (Some task2, st4)))"

definition complete_task :: "string \<Rightarrow> bool \<Rightarrow> QueueManager \<Rightarrow> Task option \<times> QueueManager" where
  "complete_task tid success st0 =
     (case get_task (db st0) tid of
        None \<Rightarrow> (None, st0)
      | Some task0 \<Rightarrow>
          (let new_status = (if success then COMPLETED else FAILED);
               (t1, st1) = now st0;
               (t2, st2) = now st1;
               task1 = task0\<lparr>status := new_status, completed_at := Some t1, updated_at := t2\<rparr>;
               st3 = save_task task1 st2;
               st4 = record_history tid (if success then ''completed'' else ''failed'')
                       (Some RUNNING) (Some new_status) st3
           in (Some task1, st4)))"

definition retry_task :: "string \<Rightarrow> QueueManager \<Rightarrow> Task option \<times> QueueManager" where
  "retry_task tid st0 =
     (case get_task (db st0) tid of
        None \<Rightarrow> (None, st0)
      | Some task0 \<Rightarrow>
          (if max_retries task0 \<le> retry_count task0 then (None, st0)
           else (let (t1, st1) = now st0;
                     task1 = task0\<lparr>retry_count := retry_count task0 + 1, status := PENDING,
                                   started_at := None, completed_at := None,
                                   updated_at := t1\<rparr>;
                     st2 = save_task task1 st1;
                     st3 = record_history tid ''retry'' (Some FAILED) (Some PENDING) st2
                 in (Some task1,
                     st3\<lparr>task_map := dict_set (task_map st3) tid task1,
                         heap := heappush (heap st3) task1\<rparr>))))"

definition set_priority :: "string \<Rightarrow> string \<Rightarrow> QueueManager \<Rightarrow> py_error + (bool \<times> QueueManager)" where
  "set_priority tid prio st =
     (case from_string prio of
        Inl e \<Rightarrow> Inl e
      | Inr p \<Rightarrow> Inr (update_priority tid p False st))"

subsection \<open>The commits of an operation\<close>

text \<open>
  What the sequence \<open>commits\<close> shows when an operation has written a task and its
  history event in two transactions. \<open>update_only st task\<close> is the store of \<open>st\<close> with
  the row of \<open>task\<close> written and the history as it was.
  \<open>task_then_history st st1 task\<close>: from \<open>st\<close> to \<open>st1\<close> two commits were made, the row
  first and then one history event of the task. \<open>history_then_task\<close>: the event
  first, then the row.
\<close>

definition update_only :: "QueueManager \<Rightarrow> Task \<Rightarrow> Database" where
  "update_only st task =
     (db st)\<lparr>tbl_tasks := insert_or_replace (row_of_task task) (tbl_tasks (db st))\<rparr>"

definition task_then_history :: "QueueManager \<Rightarrow> QueueManager \<Rightarrow> Task \<Rightarrow> bool" where
  "task_then_history st st1 task =
     (commits st1 = commits st @ [update_only st task, db st1] \<and>
      tbl_tasks (db st1) = tbl_tasks (update_only st task) \<and>
      tbl_task_history (db st1) \<noteq> [] \<and>
      butlast (tbl_task_history (db st1)) = tbl_task_history (db st) \<and>
      h_task_id (last (tbl_task_history (db st1))) = task_id task)"

definition history_then_task :: "QueueManager \<Rightarrow> QueueManager \<Rightarrow> Task \<Rightarrow> bool" where
  "history_then_task st st1 task =
     (commits st1 = commits st @ [(db st1)\<lparr>tbl_tasks := tbl_tasks (db st)\<rparr>, db st1] \<and>
      tbl_tasks (db st1) = insert_or_replace (row_of_task task) (tbl_tasks (db st)) \<and>
      tbl_task_history (db st1) \<noteq> [] \<and>
      butlast (tbl_task_history (db st1)) = tbl_task_history (db st) \<and>
      h_task_id (last (tbl_task_history (db st1))) = task_id task)"

subsection \<open>Batches of one category and priority\<close>

text \<open>
  Notions for the claims about \<open>create_batches\<close>. \<open>target cat prio\<close> holds of a row
  or task that is pending with that category and priority, \<open>target_batch cat prio\<close>
  of a batch made for that pair. \<open>tag bid t\<close> is \<open>t\<close> with the batch reference \<open>bid\<close>.
\<close>

definition target :: "string \<Rightarrow> Priority \<Rightarrow> 'a task_row_scheme \<Rightarrow> bool" where
  "target cat prio r = (category r = cat \<and> status r = ''pending'' \<and> priority r = prio)"

definition target_batch :: "string \<Rightarrow> Priority \<Rightarrow> Batch \<Rightarrow> bool" where
  "target_batch cat prio b = (b_category b = cat \<and> b_priority b = prio)"

definition tag :: "string \<Rightarrow> Task \<Rightarrow> Task" where
  "tag bid t = t\<lparr>batch_id := Some bid\<rparr>"

text \<open>
  The parts of one round of the packing loop. \<open>open_batch\<close> is its first step: a new
  batch is appended when there is no current batch or the current one is full.
  When a new batch is opened in state \<open>st\<close>, \<open>chunk_id st\<close> is its identifier,
  \<open>chunk_start st\<close> the state once the batch is made, \<open>chunk_batch c p st xs\<close> the batch
  when the tasks \<open>xs\<close> have been put into it, and \<open>save_all bid xs\<close> saves the tasks
  \<open>xs\<close> with the batch reference \<open>bid\<close>.
\<close>

definition chunk_id :: "QueueManager \<Rightarrow> string" where
  "chunk_id st = fst (generate_batch_id st)"

definition chunk_start :: "QueueManager \<Rightarrow> QueueManager" where
  "chunk_start st = snd (now (snd (generate_batch_id st)))"

definition chunk_batch :: "string \<Rightarrow> Priority \<Rightarrow> QueueManager \<Rightarrow> Task list \<Rightarrow> Batch" where
  "chunk_batch c p st xs =
     \<lparr>b_batch_id = chunk_id st, b_category = c, b_priority = p,
      b_tasks = map (tag (chunk_id st)) xs,
      b_created_at = fst (now (snd (generate_batch_id st))), b_status = PENDING\<rparr>"

definition save_all :: "string \<Rightarrow> Task list \<Rightarrow> QueueManager \<Rightarrow> QueueManager" where
  "save_all bid xs st = foldl (\<lambda>s t. save_task (tag bid t) s) st xs"

definition open_batch ::
  "string \<Rightarrow> Priority \<Rightarrow> bool \<Rightarrow> Batch list \<Rightarrow> QueueManager \<Rightarrow> Batch list \<times> QueueManager" where
  "open_batch c p hc batches st =
     (if \<not> hc \<or> BATCH_SIZE_LIMIT \<le> length (b_tasks (last batches))
      then (batches @ [\<lparr>b_batch_id = chunk_id st, b_category = c, b_priority = p,
                        b_tasks = [], b_created_at = fst (now (snd (generate_batch_id st))),
                        b_status = PENDING\<rparr>], chunk_start st)
      else (batches, st))"

section \<open>Facts about the heap, the map and the store\<close>

lemma mset_siftdown_loop:
  "pos < length hp \<Longrightarrow> mset (siftdown_loop hp startpos pos newitem) = mset (hp[pos := newitem])"
proof (induction hp startpos pos newitem rule: siftdown_loop.induct)
  case (1 hp startpos pos newitem)
  show ?case
  proof (cases "startpos < pos \<and> task_lt newitem (hp ! ((pos - 1) div 2))")
    case True
    let ?pp = "(pos - 1) div 2"
    from True 1 have pp: "?pp < pos" "?pp < length hp" by auto
    have "mset (siftdown_loop hp startpos pos newitem) = mset (hp[pos := hp ! ?pp, ?pp := newitem])"
      using True 1 pp by (subst siftdown_loop.simps) simp
    also have "\<dots> = mset (hp[pos := newitem])"
      using pp 1(2) by (simp add: mset_update nth_list_update)
    finally show ?thesis .
  next
    case False
    then show ?thesis by (subst siftdown_loop.simps) auto
  qed
qed

lemma mset_heappush: "mset (heappush h x) = add_mset x (mset h)"
  by (simp add: heappush_def siftdown_def mset_siftdown_loop)

lemma set_heappush: "set (heappush h x) = insert x (set h)"
  using mset_heappush [of h x] by (metis set_mset_add_mset_insert set_mset_mset)

lemma task_id_post_init [simp]: "task_id (post_init t) = task_id t"
  by (simp add: post_init_def Let_def)

lemma status_post_init [simp]: "status (post_init t) = status t"
  by (simp add: post_init_def Let_def)

lemma task_id_row_to_task [simp]: "task_id (row_to_task r) = task_id r"
  by (simp add: row_to_task_def)

lemma status_row_to_task [simp]: "status (row_to_task r) = status r"
  by (simp add: row_to_task_def)

lemma get_task_id: "get_task d tid = Some task \<Longrightarrow> task_id task = tid"
  by (auto simp: get_task_def find_Some_iff)

lemma get_task_pending:
  assumes "get_task d tid = Some task" and "status task = PENDING"
  shows "task \<in> set (get_pending_tasks d)"
proof -
  from assms(1) obtain r where f: "find (\<lambda>r. task_id r = tid) (tbl_tasks d) = Some r"
    and t: "task = row_to_task r"
    by (auto simp: get_task_def)
  from f have "r \<in> set (tbl_tasks d)"
    by (auto simp: find_Some_iff)
  note r = this t
  with assms(2) have "r \<in> set (filter (\<lambda>r. status r = ''pending'') (tbl_tasks d))"
    by (simp add: PENDING_def)
  then show ?thesis
    using r(2) by (simp add: get_pending_tasks_def)
qed

lemma dict_in_dict_set: "dict_in k (dict_set m k1 v) \<longleftrightarrow> k = k1 \<or> dict_in k m"
  by (induction m k1 v rule: dict_set.induct) (auto simp: dict_in_def)

lemma not_dict_in_dict_del: "\<not> dict_in k (dict_del m k)"
  by (induction m) (auto simp: dict_in_def dict_del_def)

lemma load_loop_contains:
  "foldl (\<lambda>(h, m) task. (heappush h task, dict_set m (task_id task) task)) (h0, m0) ts = (h1, m1)
   \<Longrightarrow> set h1 = set h0 \<union> set ts \<and> (\<forall>k. dict_in k m1 \<longleftrightarrow> dict_in k m0 \<or> k \<in> task_id ` set ts)"
proof (induction ts arbitrary: h0 m0)
  case Nil
  then show ?case by simp
next
  case (Cons t ts)
  from Cons.prems have "foldl (\<lambda>(h, m) task. (heappush h task, dict_set m (task_id task) task))
        (heappush h0 t, dict_set m0 (task_id t) t) ts = (h1, m1)" by simp
  from Cons.IH [OF this] show ?case
    by (auto simp: set_heappush dict_in_dict_set)
qed

lemma load_from_db_contains:
  assumes "task \<in> set (get_pending_tasks d)"
  shows "task \<in> set (fst (load_from_db d)) \<and> dict_in (task_id task) (snd (load_from_db d))"
proof -
  obtain h1 m1 where e: "load_from_db d = (h1, m1)" by (cases "load_from_db d")
  then have "foldl (\<lambda>(h, m) task. (heappush h task, dict_set m (task_id task) task)) ([], []) (get_pending_tasks d) = (h1, m1)"
    by (simp add: load_from_db_def)
  from load_loop_contains [OF this] assms e show ?thesis by auto
qed

lemma pop_loop_Some:
  "pop_loop d h m = (Some task, h1, m1) \<Longrightarrow>
     status task = PENDING \<and> get_task d (task_id task) = Some task \<and> m1 = dict_del m (task_id task)"
proof (induction d h m rule: pop_loop.induct)
  case (1 d h m)
  show ?case
  proof (cases "h = []")
    case True
    with "1.prems" show ?thesis by (subst (asm) pop_loop.simps) simp
  next
    case False
    show ?thesis
    proof (cases "heappop h")
      case (Inl e)
      with False "1.prems" show ?thesis by (subst (asm) pop_loop.simps) simp
    next
      case (Inr p)
      obtain x h2 where p: "p = (x, h2)" by (cases p)
      note hp = Inr [unfolded p]
      show ?thesis
      proof (cases "dict_in (task_id x) m \<and> (\<exists>cur. get_task d (task_id x) = Some cur \<and> status cur = PENDING)")
        case True
        then obtain cur where cur: "get_task d (task_id x) = Some cur" "status cur = PENDING" by auto
        from "1.prems" False hp True cur have "task = cur" "m1 = dict_del m (task_id x)"
          by (subst (asm) pop_loop.simps, simp)+
        with cur get_task_id [OF cur(1)] show ?thesis by simp
      next
        case stale: False
        from "1.prems" False hp stale have rec: "pop_loop d h2 m = (Some task, h1, m1)"
          by (subst (asm) pop_loop.simps) (auto split: option.splits if_splits)
        from stale show ?thesis
          using "1.IH" False hp rec
          by (cases "dict_in (task_id x) m"; cases "get_task d (task_id x)") auto
      qed
    qed
  qed
qed

lemma smaller_child_bounds:
  "c < endpos \<Longrightarrow> c \<le> smaller_child hp endpos c \<and> smaller_child hp endpos c < endpos"
  by (simp add: smaller_child_def)

lemma mset_siftup_loop:
  "pos < length hp \<Longrightarrow> endpos \<le> length hp \<Longrightarrow> siftup_loop hp endpos pos = (leaf, h1) \<Longrightarrow>
     leaf < length hp \<and> mset (h1[leaf := v]) = mset (hp[pos := v])"
proof (induction hp endpos pos arbitrary: leaf h1 rule: siftup_loop.induct)
  case (1 hp endpos pos)
  show ?case
  proof (cases "2 * pos + 1 < endpos")
    case True
    let ?c = "smaller_child hp endpos (2 * pos + 1)"
    from smaller_child_bounds [OF True, of hp] "1.prems"(2)
    have c: "pos < ?c" "?c < length hp" by auto
    from "1.prems"(3) True
    have rec: "siftup_loop (hp[pos := hp ! ?c]) endpos ?c = (leaf, h1)"
      by (subst (asm) siftup_loop.simps) simp
    from "1.IH" [OF True _ _ rec] c "1.prems"(2)
    have ih: "leaf < length hp" "mset (h1[leaf := v]) = mset (hp[pos := hp ! ?c, ?c := v])"
      by simp_all
    have "mset (hp[pos := hp ! ?c, ?c := v]) = mset (hp[pos := v])"
      using c "1.prems"(1) by (simp add: mset_update nth_list_update)
    with ih show ?thesis by simp
  next
    case False
    with "1.prems" show ?thesis
      by (subst (asm) siftup_loop.simps) auto
  qed
qed

lemma mset_siftdown: "pos < length hp \<Longrightarrow> mset (siftdown hp startpos pos) = mset hp"
  by (simp add: siftdown_def mset_siftdown_loop)

lemma mset_siftup: "pos < length hp \<Longrightarrow> mset (siftup hp pos) = mset hp"
proof -
  assume p: "pos < length hp"
  obtain leaf h1 where l: "siftup_loop hp (length hp) pos = (leaf, h1)"
    by (cases "siftup_loop hp (length hp) pos")
  from mset_siftup_loop [OF p _ l, of "hp ! pos"]
  have a: "leaf < length hp" "mset (h1[leaf := hp ! pos]) = mset hp"
    by simp_all
  from length_siftup_loop [of hp "length hp" pos] l have "length h1 = length hp"
    by simp
  with a l show ?thesis
    by (simp add: siftup_def mset_siftdown)
qed

lemma mset_heappop:
  assumes "heappop h = Inr (x, h1)"
  shows "mset h = add_mset x (mset h1)"
proof -
  from assms have ne: "h \<noteq> []"
    by (auto simp: heappop_def)
  then have h: "h = butlast h @ [last h]" by simp
  show ?thesis
  proof (cases "butlast h = []")
    case True
    with assms ne h show ?thesis
      by (auto simp: heappop_def Let_def)
  next
    case False
    with assms ne have x: "x = butlast h ! 0"
      and h1: "h1 = siftup ((butlast h)[0 := last h]) 0"
      by (simp_all add: heappop_def Let_def)
    from False have l: "0 < length (butlast h)"
      by (cases "butlast h") simp_all
    have "mset h1 = mset ((butlast h)[0 := last h])"
      unfolding h1 using l by (intro mset_siftup) simp
    also have "\<dots> = add_mset (last h) (mset (butlast h) - {#butlast h ! 0#})"
      using l by (simp add: mset_update)
    finally have "add_mset x (mset h1) = add_mset (last h) (mset (butlast h))"
      unfolding x using l by (simp add: add_mset_commute)
    also have "\<dots> = mset h"
      by (subst (2) h) simp
    finally show ?thesis by simp
  qed
qed

lemma pop_loop_heap:
  "pop_loop d h m = (Some task, h1, m1) \<Longrightarrow>
     dict_in (task_id task) m \<and>
     (\<exists>entry. task_id entry = task_id task \<and> add_mset entry (mset h1) \<subseteq># mset h)"
proof (induction d h m rule: pop_loop.induct)
  case (1 d h m)
  show ?case
  proof (cases "h = []")
    case True
    with "1.prems" show ?thesis by (subst (asm) pop_loop.simps) simp
  next
    case False
    show ?thesis
    proof (cases "heappop h")
      case (Inl e)
      with False "1.prems" show ?thesis by (subst (asm) pop_loop.simps) simp
    next
      case (Inr p)
      obtain x h2 where p: "p = (x, h2)" by (cases p)
      note hp = Inr [unfolded p]
      note ms = mset_heappop [OF hp]
      show ?thesis
      proof (cases "dict_in (task_id x) m \<and>
                    (\<exists>cur. get_task d (task_id x) = Some cur \<and> status cur = PENDING)")
        case True
        then obtain cur where cur: "get_task d (task_id x) = Some cur" "status cur = PENDING"
          by auto
        from "1.prems" False hp True cur have "task = cur" "h1 = h2"
          by (subst (asm) pop_loop.simps, simp)+
        with cur True get_task_id [OF cur(1)] ms show ?thesis
          by auto
      next
        case stale: False
        from "1.prems" False hp stale have rec: "pop_loop d h2 m = (Some task, h1, m1)"
          by (subst (asm) pop_loop.simps) (auto split: option.splits if_splits)
        have "dict_in (task_id task) m \<and>
              (\<exists>entry. task_id entry = task_id task \<and> add_mset entry (mset h1) \<subseteq># mset h2)"
          using stale "1.IH" False hp rec
          by (cases "dict_in (task_id x) m"; cases "get_task d (task_id x)") auto
        then obtain entry where "dict_in (task_id task) m" "task_id entry = task_id task"
          "add_mset entry (mset h1) \<subseteq># mset h2" by blast
        moreover have "mset h2 \<subseteq># mset h" using ms by simp
        ultimately show ?thesis
          by (meson subset_mset.order_trans)
      qed
    qed
  qed
qed

section \<open>Example states\<close>

text \<open>
  Small stores built by running the operations, for the closed theorems below. The
  clock of \<open>fresh\<close> gives 1000, 1001, ... microseconds.
\<close>

definition example_task :: "string \<Rightarrow> Priority \<Rightarrow> string \<Rightarrow> instant \<Rightarrow> Task" where
  "example_task tid p cat t = create t tid ''work'' p cat None None [] []"

definition empty_store :: Database where
  "empty_store = \<lparr>tbl_tasks = [], tbl_task_history = [], tbl_batches = []\<rparr>"

definition fresh :: QueueManager where
  "fresh = new_manager empty_store (\<lambda>n. 1000 + int n)"

text \<open>Two tasks of one priority and category, \<open>A\<close> created before \<open>B\<close>, added in that order.\<close>

definition two_added :: QueueManager where
  "two_added =
     snd (add (example_task ''B'' P2_MEDIUM ''x'' 200)
       (snd (add (example_task ''A'' P2_MEDIUM ''x'' 100) fresh)))"

text \<open>The same, after the priority of \<open>A\<close> was set to the value it had: the row is saved again.\<close>

definition resaved :: QueueManager where
  "resaved = snd (update_priority ''A'' P2_MEDIUM False two_added)"

text \<open>One task, added, started and completed.\<close>

definition one_added :: QueueManager where
  "one_added = snd (add (example_task ''A'' P2_MEDIUM ''x'' 100) fresh)"

definition done_state :: QueueManager where
  "done_state = snd (complete_task ''A'' True (snd (start_task ''A'' None one_added)))"

text \<open>One task, added and retried three times: its retries are used up.\<close>

definition exhausted :: QueueManager where
  "exhausted = snd (retry_task ''A'' (snd (retry_task ''A'' (snd (retry_task ''A'' one_added)))))"

text \<open>One task of tier P1 (of tier P3), read by the clock 25 hours (5 hours) after its creation.\<close>

definition aged_p1 :: QueueManager where
  "aged_p1 =
     (snd (add (example_task ''A'' P1_HIGH ''x'' 0) fresh))
       \<lparr>clock := (\<lambda>n. 25 * 3600000000 + int n)\<rparr>"


text \<open>
  A store of 25 pending tasks of priority P2 and one category, with a queue loaded
  from it.
\<close>

definition backlog :: "string \<Rightarrow> QueueManager" where
  "backlog cat =
     new_manager
       \<lparr>tbl_tasks =
          map (\<lambda>n. row_of_task (example_task (''task_'' @ str_nat n) P2_MEDIUM cat (int n)))
            [1, 2, 3, 4, 5, 6, 7, 8, 9, 10, 11, 12, 13, 14, 15, 16, 17, 18, 19, 20, 21, 22, 23,
             24, 25],
        tbl_task_history = [], tbl_batches = []\<rparr>
       (\<lambda>n. 1000 + int n)"

lemmas model_defs =
  example_task_def empty_store_def fresh_def new_manager_def load_from_db_def
  get_pending_tasks_def add_def now_def save_task_def commit_def record_history_def
  insert_or_replace_def row_of_task_def row_to_task_def post_init_def create_def
  PENDING_def RUNNING_def COMPLETED_def FAILED_def priority_truthy_def heappush_def
  siftdown_def siftdown_loop.simps task_lt_def peek_def peek_loop.simps dict_in_def
  get_task_def heappop_def siftup_def siftup_loop.simps smaller_child_def pop_def
  pop_loop.simps dict_del_def Let_def start_task_def complete_task_def retry_task_def
  str_truthy_def update_priority_def rebuild_heap_def heapify_def dict_values_def
  apply_age_boosts_def new_priority_for_def age_reached_def P3_to_P2_def P2_to_P1_def
  P1_to_P0_def get_next_task_def get_tasks_by_category_def

text \<open>The stores and queues of these states, written out.\<close>

lemma one_added_store:
  "db one_added =
     \<lparr>tbl_tasks =
        [\<lparr>task_id = ''A'', priority = P2_MEDIUM, original_priority = Some 2,
         description = ''work'', category = ''x'', status = ''pending'',
         assigned_agent = None, verifier_agent = None, created_at = 100,
         updated_at = 1000, started_at = None, completed_at = None,
         boost_count = 0, batch_id = None, metadata = [], retry_count = 0,
         max_retries = 3, dependencies = [], tags = []\<rparr>],
      tbl_task_history =
        [\<lparr>h_task_id = ''A'', h_action = ''created'', h_old_value = None,
         h_new_value = Some ''P2_MEDIUM'', h_timestamp = 1001\<rparr>],
      tbl_batches = []\<rparr>"
  "commits one_added =
     [\<lparr>tbl_tasks =
        [\<lparr>task_id = ''A'', priority = P2_MEDIUM, original_priority = Some 2,
         description = ''work'', category = ''x'', status = ''pending'',
         assigned_agent = None, verifier_agent = None, created_at = 100,
         updated_at = 1000, started_at = None, completed_at = None,
         boost_count = 0, batch_id = None, metadata = [], retry_count = 0,
         max_retries = 3, dependencies = [], tags = []\<rparr>],
       tbl_task_history = [], tbl_batches = []\<rparr>,
      \<lparr>tbl_tasks =
        [\<lparr>task_id = ''A'', priority = P2_MEDIUM, original_priority = Some 2,
         description = ''work'', category = ''x'', status = ''pending'',
         assigned_agent = None, verifier_agent = None, created_at = 100,
         updated_at = 1000, started_at = None, completed_at = None,
         boost_count = 0, batch_id = None, metadata = [], retry_count = 0,
         max_retries = 3, dependencies = [], tags = []\<rparr>],
       tbl_task_history =
        [\<lparr>h_task_id = ''A'', h_action = ''created'', h_old_value = None,
         h_new_value = Some ''P2_MEDIUM'', h_timestamp = 1001\<rparr>],
       tbl_batches = []\<rparr>]"
  "heap one_added =
     [\<lparr>task_id = ''A'', priority = P2_MEDIUM, original_priority = Some 2,
         description = ''work'', category = ''x'', status = ''pending'',
         assigned_agent = None, verifier_agent = None, created_at = 100,
         updated_at = 1000, started_at = None, completed_at = None,
         boost_count = 0, batch_id = None, metadata = [], retry_count = 0,
         max_retries = 3, dependencies = [], tags = [], sort_priority = 2,
         sort_timestamp = - 100\<rparr>]"
  "task_map one_added =
     [(''A'',
       \<lparr>task_id = ''A'', priority = P2_MEDIUM, original_priority = Some 2,
         description = ''work'', category = ''x'', status = ''pending'',
         assigned_agent = None, verifier_agent = None, created_at = 100,
         updated_at = 1000, started_at = None, completed_at = None,
         boost_count = 0, batch_id = None, metadata = [], retry_count = 0,
         max_retries = 3, dependencies = [], tags = [], sort_priority = 2,
         sort_timestamp = - 100\<rparr>)]"
  "clock one_added n = 1002 + int n"
  by (simp_all add: one_added_def model_defs)

lemma two_added_store:
  "db two_added =
     \<lparr>tbl_tasks =
        [\<lparr>task_id = ''A'', priority = P2_MEDIUM, original_priority = Some 2,
         description = ''work'', category = ''x'', status = ''pending'',
         assigned_agent = None, verifier_agent = None, created_at = 100,
         updated_at = 1000, started_at = None, completed_at = None,
         boost_count = 0, batch_id = None, metadata = [], retry_count = 0,
         max_retries = 3, dependencies = [], tags = []\<rparr>,
         \<lparr>task_id = ''B'', priority = P2_MEDIUM, original_priority = Some 2,
         description = ''work'', category = ''x'', status = ''pending'',
         assigned_agent = None, verifier_agent = None, created_at = 200,
         updated_at = 1002, started_at = None, completed_at = None,
         boost_count = 0, batch_id = None, metadata = [], retry_count = 0,
         max_retries = 3, dependencies = [], tags = []\<rparr>],
      tbl_task_history =
        [\<lparr>h_task_id = ''A'', h_action = ''created'', h_old_value = None,
         h_new_value = Some ''P2_MEDIUM'', h_timestamp = 1001\<rparr>,
         \<lparr>h_task_id = ''B'', h_action = ''created'', h_old_value = None,
         h_new_value = Some ''P2_MEDIUM'', h_timestamp = 1003\<rparr>],
      tbl_batches = []\<rparr>"
  "heap two_added =
     [\<lparr>task_id = ''B'', priority = P2_MEDIUM, original_priority = Some 2,
         description = ''work'', category = ''x'', status = ''pending'',
         assigned_agent = None, verifier_agent = None, created_at = 200,
         updated_at = 1002, started_at = None, completed_at = None,
         boost_count = 0, batch_id = None, metadata = [], retry_count = 0,
         max_retries = 3, dependencies = [], tags = [], sort_priority = 2,
         sort_timestamp = - 200\<rparr>,
      \<lparr>task_id = ''A'', priority = P2_MEDIUM, original_priority = Some 2,
         description = ''work'', category = ''x'', status = ''pending'',
         assigned_agent = None, verifier_agent = None, created_at = 100,
         updated_at = 1000, started_at = None, completed_at = None,
         boost_count = 0, batch_id = None, metadata = [], retry_count = 0,
         max_retries = 3, dependencies = [], tags = [], sort_priority = 2,
         sort_timestamp = - 100\<rparr>]"
  "task_map two_added =
     [(''A'',
       \<lparr>task_id = ''A'', priority = P2_MEDIUM, original_priority = Some 2,
         description = ''work'', category = ''x'', status = ''pending'',
         assigned_agent = None, verifier_agent = None, created_at = 100,
         updated_at = 1000, started_at = None, completed_at = None,
         boost_count = 0, batch_id = None, metadata = [], retry_count = 0,
         max_retries = 3, dependencies = [], tags = [], sort_priority = 2,
         sort_timestamp = - 100\<rparr>),
      (''B'',
       \<lparr>task_id = ''B'', priority = P2_MEDIUM, original_priority = Some 2,
         description = ''work'', category = ''x'', status = ''pending'',
         assigned_agent = None, verifier_agent = None, created_at = 200,
         updated_at = 1002, started_at = None, completed_at = None,
         boost_count = 0, batch_id = None, metadata = [], retry_count = 0,
         max_retries = 3, dependencies = [], tags = [], sort_priority = 2,
         sort_timestamp = - 200\<rparr>)]"
  "clock two_added n = 1004 + int n"
  by (simp_all add: two_added_def model_defs)

lemma done_state_store:
  "db done_state =
     \<lparr>tbl_tasks =
        [\<lparr>task_id = ''A'', priority = P2_MEDIUM, original_priority = Some 2,
         description = ''work'', category = ''x'', status = ''completed'',
         assigned_agent = None, verifier_agent = None, created_at = 100,
         updated_at = 1006, started_at = Some 1002, completed_at = Some 1005,
         boost_count = 0, batch_id = None, metadata = [], retry_count = 0,
         max_retries = 3, dependencies = [], tags = []\<rparr>],
      tbl_task_history =
        [\<lparr>h_task_id = ''A'', h_action = ''created'', h_old_value = None,
         h_new_value = Some ''P2_MEDIUM'', h_timestamp = 1001\<rparr>,
         \<lparr>h_task_id = ''A'', h_action = ''started'', h_old_value = Some ''pending'',
         h_new_value = Some ''running'', h_timestamp = 1004\<rparr>,
         \<lparr>h_task_id = ''A'', h_action = ''completed'', h_old_value = Some ''running'',
         h_new_value = Some ''completed'', h_timestamp = 1007\<rparr>],
      tbl_batches = []\<rparr>"
  by (simp add: done_state_def start_task_def complete_task_def get_task_def row_to_task_def
        post_init_def priority_truthy_def now_def save_task_def commit_def record_history_def
        insert_or_replace_def row_of_task_def str_truthy_def RUNNING_def COMPLETED_def
        PENDING_def Let_def one_added_store)

text \<open>The definitions an operation on such a state is evaluated with.\<close>

lemmas run_defs =
  get_pending_tasks_def get_tasks_by_category_def get_task_def row_to_task_def row_of_task_def
  post_init_def priority_truthy_def insert_or_replace_def now_def save_task_def commit_def
  record_history_def start_task_def complete_task_def retry_task_def update_priority_def
  rebuild_heap_def heapify_def dict_values_def dict_in_def dict_del_def str_truthy_def
  peek_def peek_loop.simps pop_def pop_loop.simps heappush_def heappop_def siftdown_def
  siftdown_loop.simps siftup_def siftup_loop.simps smaller_child_def task_lt_def
  PENDING_def RUNNING_def COMPLETED_def FAILED_def Let_def

section \<open>Serialisation\<close>

lemma from_string_priority_name:
  "from_string (priority_name p) = Inl (ValueError (''Unknown priority: '' @ priority_name p))"
  by (cases p)
     (simp_all add: from_string_def upper_def upper_char_def strip_def is_space_def
        priority_mapping_def)

text \<open>
  C2. The claim: \<open>from_dict (to_dict t)\<close> is a task equal to \<open>t\<close> in all fields. On the code
  it never is: \<open>to_dict\<close> writes the priority as the member's name (\<open>P2_MEDIUM\<close>, with an
  underscore), \<open>from_dict\<close> parses it with \<open>from_string\<close>, whose table spells the long
  names with a hyphen (\<open>P2-MEDIUM\<close>), so for every task the reconstruction raises
  ValueError.
\<close>

theorem from_dict_to_dict_raises:
  "from_dict now1 now2 (to_dict t) =
     Inl (ValueError (''Unknown priority: '' @ priority_name (priority t)))"
  by (simp add: from_dict_def to_dict_def dict_get_def from_string_priority_name)

section \<open>Order of the heap\<close>

text \<open>
  C1. The claim: among pending tasks of one priority, \<open>peek\<close> and \<open>pop\<close> return the one
  created first. The heap compares \<open>(sort_priority, sort_timestamp)\<close> and
  \<open>sort_timestamp\<close> is the negated creation time, so of two tasks made by \<open>Task.create\<close>
  with one priority the one created later is the smaller, and within a priority the
  least entry of the heap is the newest. After adding \<open>A\<close> (created at 100) and then \<open>B\<close>
  (created at 200), both of priority P2, \<open>peek\<close> and \<open>pop\<close> return \<open>B\<close>.
\<close>

theorem peek_returns_newest_of_tier:
  "(\<forall>t1 t2 id1 id2 d1 d2 p c1 c2 a1 a2 v1 v2 ds1 ds2 tg1 tg2.
      task_lt (create t1 id1 d1 p c1 a1 v1 ds1 tg1) (create t2 id2 d2 p c2 a2 v2 ds2 tg2) =
        (t2 < t1)) \<and>
   map (\<lambda>t. (task_id t, priority t, created_at t)) (get_pending_tasks (db two_added)) =
     [(''A'', P2_MEDIUM, 100), (''B'', P2_MEDIUM, 200)] \<and>
   map_option task_id (fst (peek two_added)) = Some ''B'' \<and>
   map_option task_id (fst (pop two_added)) = Some ''B''"
proof -
  have "task_lt (create t1 id1 d1 p c1 a1 v1 ds1 tg1) (create t2 id2 d2 p c2 a2 v2 ds2 tg2) =
          (t2 < t1)" for t1 t2 id1 id2 d1 d2 p c1 c2 a1 a2 v1 v2 ds1 ds2 tg1 tg2
    by (simp add: task_lt_def create_def post_init_def Let_def)
  moreover have
    "map (\<lambda>t. (task_id t, priority t, created_at t)) (get_pending_tasks (db two_added)) =
       [(''A'', P2_MEDIUM, 100), (''B'', P2_MEDIUM, 200)] \<and>
     map_option task_id (fst (peek two_added)) = Some ''B'' \<and>
     map_option task_id (fst (pop two_added)) = Some ''B''"
    by (simp add: two_added_store run_defs)
  ultimately show ?thesis by blast
qed

section \<open>Lifecycle\<close>

text \<open>
  C3, as the code has it. \<open>start\<close> and \<open>complete\<close> are rejected (they answer \<open>None\<close>)
  exactly when the task does not exist, \<open>retry\<close> exactly when it does not exist or its
  retries are used up; a rejected operation returns the state as it was, so no task
  changes and no history event is appended. The current status of the task plays no
  part in this.
\<close>

theorem lifecycle_rejects_missing_task:
  "(fst (start_task tid agent st) = None) = (get_task (db st) tid = None) \<and>
   (start_task tid agent st = (None, st)) = (get_task (db st) tid = None) \<and>
   (fst (complete_task tid success st) = None) = (get_task (db st) tid = None) \<and>
   (complete_task tid success st = (None, st)) = (get_task (db st) tid = None) \<and>
   (fst (retry_task tid st) = None) =
     (case get_task (db st) tid of
        None \<Rightarrow> True
      | Some t \<Rightarrow> max_retries t \<le> retry_count t) \<and>
   (retry_task tid st = (None, st)) =
     (case get_task (db st) tid of
        None \<Rightarrow> True
      | Some t \<Rightarrow> max_retries t \<le> retry_count t)"
  by (cases "get_task (db st) tid")
     (simp_all add: start_task_def complete_task_def retry_task_def Let_def split_beta)

theorem lifecycle_rejects_missing_task_witness:
  "get_task (db fresh) ''A'' = None \<and>
   start_task ''A'' None fresh = (None, fresh) \<and>
   complete_task ''A'' True fresh = (None, fresh) \<and>
   retry_task ''A'' fresh = (None, fresh)"
proof -
  have h: "get_task (db fresh) ''A'' = None"
    by (simp add: fresh_def new_manager_def empty_store_def get_task_def)
  show ?thesis
    using h lifecycle_rejects_missing_task [of "''A''" None fresh True] by simp
qed

text \<open>
  C3, as stated, fails: a task that is completed is started again. The operation
  answers with the task, the stored status becomes \<open>running\<close> and a history event is
  appended. Likewise \<open>complete\<close> accepts a task that is pending, and \<open>retry\<close> one that
  is completed.
\<close>

theorem start_accepts_completed_task:
  "map_option status (get_task (db done_state) ''A'') = Some ''completed'' \<and>
   map_option status (fst (start_task ''A'' None done_state)) = Some ''running'' \<and>
   map_option status (get_task (db (snd (start_task ''A'' None done_state))) ''A'') =
     Some ''running'' \<and>
   map h_action (tbl_task_history (db done_state)) = [''created'', ''started'', ''completed''] \<and>
   map h_action (tbl_task_history (db (snd (start_task ''A'' None done_state)))) =
     [''created'', ''started'', ''completed'', ''started''] \<and>
   map_option status (get_task (db one_added) ''A'') = Some ''pending'' \<and>
   map_option status (get_task (db (snd (complete_task ''A'' True one_added))) ''A'') =
     Some ''completed'' \<and>
   map h_action (tbl_task_history (db (snd (complete_task ''A'' True one_added)))) =
     [''created'', ''completed''] \<and>
   map_option (\<lambda>t. (status t, retry_count t))
     (get_task (db (snd (retry_task ''A'' done_state))) ''A'') = Some (''pending'', 1) \<and>
   map h_action (tbl_task_history (db (snd (retry_task ''A'' done_state)))) =
     [''created'', ''started'', ''completed'', ''retry'']"
  by (simp add: done_state_store one_added_store run_defs)

text \<open>
  C4. For an existing task with \<open>retry_count >= max_retries\<close>, \<open>retry\<close> answers \<open>None\<close>
  and returns the state as it was: no field of any task, no history event, nothing
  in the queue changes.
\<close>

theorem retry_exhausted_is_noop:
  "get_task (db st) tid = Some task \<Longrightarrow> max_retries task \<le> retry_count task \<Longrightarrow>
     retry_task tid st = (None, st)"
  by (simp add: retry_task_def)

theorem retry_exhausted_is_noop_witness:
  "map_option (\<lambda>t. (retry_count t, max_retries t)) (get_task (db exhausted) ''A'') =
     Some (3, 3) \<and>
   retry_task ''A'' exhausted = (None, exhausted)"
proof -
  have g: "map_option (\<lambda>t. (retry_count t, max_retries t)) (get_task (db exhausted) ''A'') =
             Some (3, 3)"
    by (simp add: exhausted_def one_added_store run_defs)
  then obtain task where t: "get_task (db exhausted) ''A'' = Some task"
    and r: "max_retries task \<le> retry_count task"
    by auto
  from retry_exhausted_is_noop [OF t r] g show ?thesis by simp
qed

section \<open>Aging\<close>

text \<open>
  C5. The claim: a pending task older than the threshold of its tier is promoted one
  tier by an aging pass. For tier P1 the code chooses \<open>new_priority = P0_CRITICAL\<close> and
  then tests \<open>if new_priority:\<close>; the member \<open>P0_CRITICAL\<close> is the integer 0 and counts
  as false, so the promotion is skipped: the loop of the pass leaves a P1 task as it
  is and does not count it, whatever its age. A pending P1 task created 25 hours
  before the pass (threshold 24) stays P1, the pass counts no promotion and writes
  nothing.
\<close>

theorem aging_skips_tier_p1:
  "(\<forall>current task n st.
      age_boost_loop current [task\<lparr>priority := P1_HIGH\<rparr>] n st = (n, st)) \<and>
   new_priority_for (25 * 3600000000) (example_task ''A'' P1_HIGH ''x'' 0) = Some P0_CRITICAL \<and>
   map_option (\<lambda>t. (status t, priority t, created_at t)) (get_task (db aged_p1) ''A'') =
     Some (''pending'', P1_HIGH, 0) \<and>
   clock aged_p1 0 = 25 * 3600000000 \<and>
   fst (apply_age_boosts aged_p1) = 0 \<and>
   db (snd (apply_age_boosts aged_p1)) = db aged_p1"
proof -
  have "age_boost_loop current [task\<lparr>priority := P1_HIGH\<rparr>] n st = (n, st)"
    for current task n st
    by (simp add: new_priority_for_def priority_truthy_def)
  moreover have
    "new_priority_for (25 * 3600000000) (example_task ''A'' P1_HIGH ''x'' 0) =
       Some P0_CRITICAL \<and>
     map_option (\<lambda>t. (status t, priority t, created_at t)) (get_task (db aged_p1) ''A'') =
       Some (''pending'', P1_HIGH, 0) \<and>
     clock aged_p1 0 = 25 * 3600000000 \<and>
     fst (apply_age_boosts aged_p1) = 0 \<and>
     db (snd (apply_age_boosts aged_p1)) = db aged_p1"
    by (simp add: aged_p1_def model_defs)
  ultimately show ?thesis by blast
qed


section \<open>Queries\<close>

text \<open>
  C7. The claim: \<open>get_tasks_by_category\<close> lists tasks of equal priority oldest first,
  as \<open>get_pending_tasks\<close> and \<open>get_tasks_by_status\<close> do. Its two queries say
  \<open>ORDER BY priority ASC\<close> only, where the other two say
  \<open>ORDER BY priority ASC, created_at ASC\<close>, so rows of equal priority come as the table
  holds them. After \<open>A\<close> (created at 100) and \<open>B\<close> (created at 200) are added and \<open>A\<close> is
  saved again, the category query lists \<open>B\<close> before \<open>A\<close>; the pending query lists
  \<open>A\<close> before \<open>B\<close>.
\<close>

theorem category_query_ignores_created_at:
  "map (\<lambda>t. (task_id t, priority t, created_at t))
     (get_tasks_by_category (db resaved) ''x'' (Some ''pending'')) =
     [(''B'', P2_MEDIUM, 200), (''A'', P2_MEDIUM, 100)] \<and>
   map (\<lambda>t. (task_id t, priority t, created_at t))
     (get_tasks_by_category (db resaved) ''x'' None) =
     [(''B'', P2_MEDIUM, 200), (''A'', P2_MEDIUM, 100)] \<and>
   map (\<lambda>t. (task_id t, priority t, created_at t)) (get_pending_tasks (db resaved)) =
     [(''A'', P2_MEDIUM, 100), (''B'', P2_MEDIUM, 200)]"
  by (simp add: resaved_def two_added_store run_defs)

section \<open>The queue and the store\<close>

text \<open>
  C10. When \<open>pop\<close> returns a task, the state differs from the one before in the heap
  and the map only. The task was in the map and is taken out of it, every other
  entry stays; the heap loses entries, among them one with the identifier of the
  task, and gains none. The store is the one it was (no write is committed), the
  stored record of the task is the task returned and its status is \<open>pending\<close>; so
  the heap and the map a new queue loads from the store hold the task again.
\<close>

theorem pop_leaves_store:
  assumes "pop st = (Some task, st1)"
  shows "db st1 = db st \<and> commits st1 = commits st \<and>
     status task = PENDING \<and> get_task (db st1) (task_id task) = Some task \<and>
     \<not> dict_in (task_id task) (task_map st1) \<and>
     task \<in> set (fst (load_from_db (db st1))) \<and>
     dict_in (task_id task) (snd (load_from_db (db st1))) \<and>
     st1 = st\<lparr>heap := heap st1, task_map := task_map st1\<rparr> \<and>
     dict_in (task_id task) (task_map st) \<and>
     task_map st1 = dict_del (task_map st) (task_id task) \<and>
     task_map st1 = filter (\<lambda>(k, v). k \<noteq> task_id task) (task_map st) \<and>
     (\<exists>entry. task_id entry = task_id task \<and>
        add_mset entry (mset (heap st1)) \<subseteq># mset (heap st)) \<and>
     length (heap st1) < length (heap st)"
proof -
  obtain r h m where l: "pop_loop (db st) (heap st) (task_map st) = (r, h, m)"
    by (cases "pop_loop (db st) (heap st) (task_map st)")
  with assms have r: "r = Some task" and st1: "st1 = st\<lparr>heap := h, task_map := m\<rparr>"
    by (simp_all add: pop_def)
  from pop_loop_Some [OF l [unfolded r]]
  have p: "status task = PENDING" "get_task (db st) (task_id task) = Some task"
    "m = dict_del (task_map st) (task_id task)" by simp_all
  from pop_loop_heap [OF l [unfolded r]]
  obtain entry where hp: "dict_in (task_id task) (task_map st)"
    "task_id entry = task_id task" "add_mset entry (mset h) \<subseteq># mset (heap st)"
    by blast
  from hp(3) have "size (add_mset entry (mset h)) \<le> size (mset (heap st))"
    by (rule size_mset_mono)
  then have len: "length h < length (heap st)"
    by simp
  from get_task_pending [OF p(2) p(1)] have "task \<in> set (get_pending_tasks (db st))" .
  from load_from_db_contains [OF this]
  have ld: "task \<in> set (fst (load_from_db (db st)))"
    "dict_in (task_id task) (snd (load_from_db (db st)))"
    by simp_all
  have ex: "\<exists>entry. task_id entry = task_id task \<and>
              add_mset entry (mset (heap st1)) \<subseteq># mset (heap st)"
    using hp(2,3) st1 by auto
  have fl: "dict_del (task_map st) (task_id task) =
            filter (\<lambda>(k, v). k \<noteq> task_id task) (task_map st)"
    by (simp add: dict_del_def)
  from ld p st1 hp(1) len ex fl show ?thesis
    by (simp add: not_dict_in_dict_del not_dict_in_dict_del [unfolded dict_del_def])
qed

theorem pop_leaves_store_witness:
  "map_option task_id (fst (pop two_added)) = Some ''B'' \<and>
   db (snd (pop two_added)) = db two_added \<and>
   map_option status (get_task (db (snd (pop two_added))) ''B'') = Some PENDING \<and>
   \<not> dict_in ''B'' (task_map (snd (pop two_added))) \<and>
   dict_in ''B'' (snd (load_from_db (db (snd (pop two_added))))) \<and>
   map task_id (heap two_added) = [''B'', ''A''] \<and>
   map task_id (heap (snd (pop two_added))) = [''A''] \<and>
   map fst (task_map two_added) = [''A'', ''B''] \<and>
   map fst (task_map (snd (pop two_added))) = [''A''] \<and>
   task_map (snd (pop two_added)) = dict_del (task_map two_added) ''B'' \<and>
   length (heap (snd (pop two_added))) < length (heap two_added)"
proof -
  have e: "map_option task_id (fst (pop two_added)) = Some ''B''"
    by (simp add: two_added_store run_defs)
  have v: "map task_id (heap two_added) = [''B'', ''A''] \<and>
           map task_id (heap (snd (pop two_added))) = [''A''] \<and>
           map fst (task_map two_added) = [''A'', ''B''] \<and>
           map fst (task_map (snd (pop two_added))) = [''A'']"
    by (simp add: two_added_store run_defs)
  from e obtain task where t: "fst (pop two_added) = Some task" "task_id task = ''B''"
    by auto
  then have p: "pop two_added = (Some task, snd (pop two_added))"
    by (metis prod.collapse)
  note q = pop_leaves_store [OF p, unfolded t(2)]
  from q have "map_option status (get_task (db (snd (pop two_added))) ''B'') = Some PENDING"
    by (elim conjE) simp
  with q e v show ?thesis
    by blast
qed

section \<open>Transactions\<close>

lemma start_task_two_commits:
  "get_task (db st) tid = Some task0 \<Longrightarrow>
     (case start_task tid agent st of
        (Some t, st1) \<Rightarrow> task_then_history st st1 t
      | (None, st1) \<Rightarrow> False)"
  by (frule get_task_id)
     (simp add: start_task_def task_then_history_def update_only_def Let_def now_def
        save_task_def commit_def record_history_def)

lemma complete_task_two_commits:
  "get_task (db st) tid = Some task0 \<Longrightarrow>
     (case complete_task tid success st of
        (Some t, st1) \<Rightarrow> task_then_history st st1 t
      | (None, st1) \<Rightarrow> False)"
  by (frule get_task_id)
     (simp add: complete_task_def task_then_history_def update_only_def Let_def now_def
        save_task_def commit_def record_history_def)

lemma retry_task_two_commits:
  "get_task (db st) tid = Some task0 \<Longrightarrow>
     (case retry_task tid st of
        (Some t, st1) \<Rightarrow> task_then_history st st1 t
      | (None, st1) \<Rightarrow>
          st1 = st \<and> (\<exists>t. get_task (db st) tid = Some t \<and> max_retries t \<le> retry_count t))"
  by (frule get_task_id)
     (simp add: retry_task_def task_then_history_def update_only_def Let_def now_def
        save_task_def commit_def record_history_def)

lemma add_two_commits:
  "(case add task st of (t, st1) \<Rightarrow> task_then_history st st1 t)"
  by (simp add: add_def task_then_history_def update_only_def Let_def now_def
        save_task_def commit_def record_history_def)

lemma update_priority_two_commits:
  assumes "get_task (db st) tid = Some task0"
  shows "(case update_priority tid p b st of
            (ok, st1) \<Rightarrow>
              ok \<and> (\<exists>t. task_id t = tid \<and> priority t = p \<and> history_then_task st st1 t))"
proof -
  let ?t1 = "task0\<lparr>priority := p, sort_priority := priority_value p, updated_at := clock st 0\<rparr>"
  let ?t2 = "if b then ?t1\<lparr>boost_count := boost_count ?t1 + 1\<rparr> else ?t1"
  from assms have i: "task_id task0 = tid"
    by (rule get_task_id)
  have ok: "fst (update_priority tid p b st)"
    using assms by (simp add: update_priority_def Let_def split_beta)
  have "task_id ?t2 = tid \<and> priority ?t2 = p \<and>
        history_then_task st (snd (update_priority tid p b st)) ?t2"
    using assms i
    by (simp add: update_priority_def history_then_task_def Let_def now_def save_task_def
          commit_def record_history_def rebuild_heap_def)
  with ok show ?thesis
    by (auto simp: split_beta)
qed

text \<open>
  C6, as the code has it. The task row and the history event of an operation are
  written by \<open>save_task\<close> and \<open>record_history\<close>, each in a connection and a transaction
  of its own. So every mutating operation (\<open>add\<close>, \<open>start_task\<close>, \<open>complete_task\<close>,
  \<open>retry_task\<close>, \<open>update_priority\<close>) that is carried out makes two commits, one after
  the other: the row and then the event (\<open>update_priority\<close>: the event and then the
  row). When the operation has run both are stored; the store committed in between
  has one of them without the other.
\<close>

theorem update_and_history_are_two_commits:
  assumes "get_task (db st) tid = Some task0"
  shows "(case start_task tid agent st of
            (Some t, st1) \<Rightarrow> task_then_history st st1 t
          | (None, st1) \<Rightarrow> False) \<and>
         (case complete_task tid success st of
            (Some t, st1) \<Rightarrow> task_then_history st st1 t
          | (None, st1) \<Rightarrow> False) \<and>
         (case retry_task tid st of
            (Some t, st1) \<Rightarrow> task_then_history st st1 t
          | (None, st1) \<Rightarrow>
              st1 = st \<and> (\<exists>t. get_task (db st) tid = Some t \<and> max_retries t \<le> retry_count t)) \<and>
         (case add task st of (t, st1) \<Rightarrow> task_then_history st st1 t) \<and>
         (case update_priority tid p b st of
            (ok, st1) \<Rightarrow>
              ok \<and> (\<exists>t. task_id t = tid \<and> priority t = p \<and> history_then_task st st1 t))"
  by (intro conjI start_task_two_commits [OF assms] complete_task_two_commits [OF assms]
        retry_task_two_commits [OF assms] add_two_commits
        update_priority_two_commits [OF assms])

theorem update_and_history_are_two_commits_witness:
  "get_task (db one_added) ''A'' \<noteq> None \<and>
   (case start_task ''A'' None one_added of
      (Some t, st1) \<Rightarrow> task_then_history one_added st1 t
    | (None, st1) \<Rightarrow> False) \<and>
   (case complete_task ''A'' True one_added of
      (Some t, st1) \<Rightarrow> task_then_history one_added st1 t
    | (None, st1) \<Rightarrow> False) \<and>
   (case retry_task ''A'' one_added of
      (Some t, st1) \<Rightarrow> task_then_history one_added st1 t
    | (None, st1) \<Rightarrow>
        st1 = one_added \<and>
        (\<exists>t. get_task (db one_added) ''A'' = Some t \<and> max_retries t \<le> retry_count t)) \<and>
   (case add (example_task ''C'' P3_LOW ''y'' 300) one_added of
      (t, st1) \<Rightarrow> task_then_history one_added st1 t) \<and>
   (case update_priority ''A'' P0_CRITICAL False one_added of
      (ok, st1) \<Rightarrow>
        ok \<and> (\<exists>t. task_id t = ''A'' \<and> priority t = P0_CRITICAL \<and>
                  history_then_task one_added st1 t))"
proof -
  have n: "get_task (db one_added) ''A'' \<noteq> None"
    by (simp add: one_added_store run_defs)
  then obtain t0 where h: "get_task (db one_added) ''A'' = Some t0"
    by auto
  from n update_and_history_are_two_commits
         [OF h, of None True "example_task ''C'' P3_LOW ''y'' 300" P0_CRITICAL False]
  show ?thesis
    by blast
qed

text \<open>
  C6, as stated, fails. \<open>start_task\<close> on the pending task \<open>A\<close> commits twice; the store
  of the first commit holds \<open>A\<close> as \<open>running\<close> while the history has no \<open>started\<close>
  event yet. \<open>update_priority\<close> commits the \<open>priority_change\<close> event while the stored
  priority is still the old one.
\<close>

theorem update_committed_without_history:
  "(let st1 = snd (start_task ''A'' None one_added); d = commits st1 ! 2
    in length (commits one_added) = 2 \<and> length (commits st1) = 4 \<and>
       map status (tbl_tasks (db one_added)) = [''pending''] \<and>
       map status (tbl_tasks d) = [''running''] \<and>
       map h_action (tbl_task_history d) = [''created''] \<and>
       map h_action (tbl_task_history (db st1)) = [''created'', ''started'']) \<and>
   (let st1 = snd (update_priority ''A'' P0_CRITICAL False one_added); d = commits st1 ! 2
    in length (commits st1) = 4 \<and>
       map priority (tbl_tasks d) = [P2_MEDIUM] \<and>
       map h_action (tbl_task_history d) = [''created'', ''priority_change''] \<and>
       map priority (tbl_tasks (db st1)) = [P0_CRITICAL])"
  by (simp add: one_added_store run_defs)

section \<open>Batching\<close>

lemma post_init_fields [simp]:
  "category (post_init t) = category t" "priority (post_init t) = priority t"
  "batch_id (post_init t) = batch_id t"
  by (simp_all add: post_init_def Let_def)

lemma row_to_task_fields [simp]:
  "category (row_to_task r) = category r" "priority (row_to_task r) = priority r"
  "batch_id (row_to_task r) = batch_id r"
  by (simp_all add: row_to_task_def)

lemma row_of_task_fields [simp]:
  "task_id (row_of_task t) = task_id t" "category (row_of_task t) = category t"
  "priority (row_of_task t) = priority t" "status (row_of_task t) = status t"
  "batch_id (row_of_task t) = batch_id t"
  by (simp_all add: row_of_task_def)

lemma tag_fields [simp]:
  "task_id (tag bid t) = task_id t" "category (tag bid t) = category t"
  "priority (tag bid t) = priority t" "status (tag bid t) = status t"
  "batch_id (tag bid t) = Some bid"
  by (simp_all add: tag_def)

lemma target_simps [simp]:
  "target cat prio (row_to_task r) = target cat prio r"
  "target cat prio (row_of_task t) = target cat prio t"
  "target cat prio (tag bid t) = target cat prio t"
  by (simp_all add: target_def)

lemma priority_value_inj [simp]: "priority_value p = priority_value q \<longleftrightarrow> p = q"
  by (cases p; cases q) simp_all

lemma pair_tasks:
  "filter (\<lambda>t. priority t = p) (get_tasks_by_category d c (Some PENDING)) =
     map row_to_task (filter (target c p) (tbl_tasks d))"
proof -
  have stable: "filter (\<lambda>r::task_row. priority r = p)
                  (sort_key (\<lambda>r. priority_value (priority r)) ys) =
                filter (\<lambda>r. priority r = p) ys" for ys
    using sort_key_stable [of "\<lambda>r::task_row. priority_value (priority r)" "priority_value p" ys]
    by simp
  have "filter (\<lambda>r. priority r = p)
          (filter (\<lambda>r. category r = c \<and> status r = PENDING) (tbl_tasks d)) =
        filter (target c p) (tbl_tasks d)"
    by (rule trans [OF filter_filter]) (rule filter_cong, auto simp: target_def PENDING_def)
  then show ?thesis
    by (simp add: get_tasks_by_category_def str_truthy_def PENDING_def filter_map o_def stable)
qed

lemma distinct_insert_or_replace:
  "distinct (map task_id rows) \<Longrightarrow> distinct (map task_id (insert_or_replace r rows))"
  by (auto simp: insert_or_replace_def distinct_map_filter)

lemma filter_insert_or_replace_other:
  assumes "\<not> P r" and "\<And>x. x \<in> set rows \<Longrightarrow> P x \<Longrightarrow> task_id x \<noteq> task_id r"
  shows "filter P (insert_or_replace r rows) = filter P rows"
proof -
  have "filter P (filter (\<lambda>r1. task_id r1 \<noteq> task_id r) rows) = filter P rows"
    using assms(2) by (induction rows) auto
  with assms(1) show ?thesis
    by (simp add: insert_or_replace_def)
qed

lemma find_distinct_id:
  "distinct (map task_id rows) \<Longrightarrow> r \<in> set rows \<Longrightarrow>
     find (\<lambda>x. task_id x = task_id r) rows = Some r"
  by (induction rows) (auto simp: rev_image_eqI)

lemma foldl_product:
  "foldl (\<lambda>acc p. foldl (f p) acc cs) a ps =
     foldl (\<lambda>acc (p, c). f p acc c) a (concat (map (\<lambda>p. map (Pair p) cs) ps))"
proof (induction ps arbitrary: a)
  case Nil
  show ?case by simp
next
  case (Cons p ps)
  have "foldl (\<lambda>acc (p, c). f p acc c) a (map (Pair p) cs) = foldl (f p) a cs"
    by (induction cs arbitrary: a) simp_all
  with Cons show ?case by simp
qed

lemma save_all_simps [simp]:
  "save_all bid [] st = st"
  "save_all bid (x # xs) st = save_all bid xs (save_task (tag bid x) st)"
  by (simp_all add: save_all_def)

lemma pack_fill:
  assumes "b_category B = c" and "length (b_tasks B) + length xs \<le> BATCH_SIZE_LIMIT"
    and "\<forall>t\<in>set xs. category t = c"
  shows "pack_loop c p (xs @ rest) True (bs @ [B]) st =
         pack_loop c p rest True (bs @ [B\<lparr>b_tasks := b_tasks B @ map (tag (b_batch_id B)) xs\<rparr>])
           (save_all (b_batch_id B) xs st)"
  using assms
proof (induction xs arbitrary: B st)
  case Nil
  then show ?case by simp
next
  case (Cons x xs)
  let ?B1 = "B\<lparr>b_tasks := b_tasks B @ [tag (b_batch_id B) x]\<rparr>"
  from Cons.prems have a: "add_task_to_batch B x = (True, ?B1, tag (b_batch_id B) x)"
    by (simp add: add_task_to_batch_def tag_def Let_def)
  from Cons.prems have full: "\<not> BATCH_SIZE_LIMIT \<le> length (b_tasks B)"
    by simp
  have step: "pack_loop c p ((x # xs) @ rest) True (bs @ [B]) st =
              pack_loop c p (xs @ rest) True (bs @ [?B1]) (save_task (tag (b_batch_id B) x) st)"
    using a full by (simp add: Let_def)
  have "pack_loop c p (xs @ rest) True (bs @ [?B1]) (save_task (tag (b_batch_id B) x) st) =
        pack_loop c p rest True
          (bs @ [?B1\<lparr>b_tasks := b_tasks ?B1 @ map (tag (b_batch_id ?B1)) xs\<rparr>])
          (save_all (b_batch_id ?B1) xs (save_task (tag (b_batch_id B) x) st))"
    using Cons.prems by (intro Cons.IH) simp_all
  with step show ?case by simp
qed

lemma pack_chunk:
  assumes "xs \<noteq> []" and "length xs \<le> BATCH_SIZE_LIMIT" and "\<forall>t\<in>set xs. category t = c"
    and "\<not> hc \<or> BATCH_SIZE_LIMIT \<le> length (b_tasks (last batches))"
  shows "pack_loop c p (xs @ rest) hc batches st =
         pack_loop c p rest True (batches @ [chunk_batch c p st xs])
           (save_all (chunk_id st) xs (chunk_start st))"
proof -
  from assms(1) obtain x xs1 where xs: "xs = x # xs1" by (cases xs) auto
  let ?bid = "chunk_id st"
  let ?B0 = "\<lparr>b_batch_id = ?bid, b_category = c, b_priority = p, b_tasks = [],
              b_created_at = fst (now (snd (generate_batch_id st))), b_status = PENDING\<rparr>"
  let ?B1 = "?B0\<lparr>b_tasks := [tag ?bid x]\<rparr>"
  from assms(3) xs have a: "add_task_to_batch ?B0 x = (True, ?B1, tag ?bid x)"
    by (simp add: add_task_to_batch_def tag_def Let_def BATCH_SIZE_LIMIT_def)
  have step: "pack_loop c p (xs @ rest) hc batches st =
              pack_loop c p (xs1 @ rest) True (batches @ [?B1])
                (save_task (tag ?bid x) (chunk_start st))"
    using a assms(4) xs
    by (simp add: Let_def split_beta chunk_id_def chunk_start_def)
  have "pack_loop c p (xs1 @ rest) True (batches @ [?B1])
          (save_task (tag ?bid x) (chunk_start st)) =
        pack_loop c p rest True
          (batches @ [?B1\<lparr>b_tasks := b_tasks ?B1 @ map (tag (b_batch_id ?B1)) xs1\<rparr>])
          (save_all (b_batch_id ?B1) xs1 (save_task (tag ?bid x) (chunk_start st)))"
    using assms(2,3) xs by (intro pack_fill) simp_all
  with step xs show ?thesis
    by (simp add: chunk_batch_def)
qed

lemma pack_loop_Cons:
  "pack_loop c p (task # rest) hc batches st =
     pack_loop c p rest True
       (butlast (fst (open_batch c p hc batches st)) @
          [fst (snd (add_task_to_batch (last (fst (open_batch c p hc batches st))) task))])
       (save_task (snd (snd (add_task_to_batch (last (fst (open_batch c p hc batches st))) task)))
          (snd (open_batch c p hc batches st)))"
  by (simp add: open_batch_def Let_def split_beta chunk_id_def chunk_start_def)

lemma db_now [simp]: "db (snd (now st)) = db st"
  by (simp add: now_def)

lemma db_generate_batch_id [simp]: "db (snd (generate_batch_id st)) = db st"
  by (simp add: generate_batch_id_def Let_def split_beta)

lemma db_chunk_start [simp]: "db (chunk_start st) = db st"
  by (simp add: chunk_start_def)

lemma tbl_tasks_save_task [simp]:
  "tbl_tasks (db (save_task t st)) = insert_or_replace (row_of_task t) (tbl_tasks (db st))"
  by (simp add: save_task_def commit_def)

lemma tbl_tasks_save_batch [simp]: "tbl_tasks (db (save_batch b st)) = tbl_tasks (db st)"
  by (simp add: save_batch_def commit_def)

lemma db_open_batch [simp]: "db (snd (open_batch c p hc batches st)) = db st"
  by (simp add: open_batch_def)

lemma open_batch_batches:
  assumes "hc \<longrightarrow> batches \<noteq> [] \<and> \<not> target_batch cat prio (last batches)"
    and "(c, p) \<noteq> (cat, prio)"
  shows "fst (open_batch c p hc batches st) \<noteq> [] \<and>
         \<not> target_batch cat prio (last (fst (open_batch c p hc batches st))) \<and>
         filter (target_batch cat prio) (fst (open_batch c p hc batches st)) =
           filter (target_batch cat prio) batches"
  using assms by (auto simp: open_batch_def target_batch_def)

lemma add_task_to_batch_keeps:
  "b_category (fst (snd (add_task_to_batch b t))) = b_category b"
  "b_priority (fst (snd (add_task_to_batch b t))) = b_priority b"
  "task_id (snd (snd (add_task_to_batch b t))) = task_id t"
  "target cat prio (snd (snd (add_task_to_batch b t))) = target cat prio t"
  by (simp_all add: add_task_to_batch_def Let_def target_def)

lemma filter_butlast_snoc:
  assumes "bs \<noteq> []" and "\<not> P (last bs)" and "\<not> P b"
  shows "filter P (butlast bs @ [b]) = filter P bs"
proof -
  from assms(1) have "bs = butlast bs @ [last bs]" by simp
  then have "filter P bs = filter P (butlast bs) @ filter P [last bs]"
    by (metis filter_append)
  with assms(2,3) show ?thesis by simp
qed

lemma pack_loop_other:
  assumes "(c, p) \<noteq> (cat, prio)"
    and "\<forall>t\<in>set tasks. \<not> target cat prio t \<and> task_id t \<notin> task_id ` set R"
    and "distinct (map task_id (tbl_tasks (db st)))"
    and "filter (target cat prio) (tbl_tasks (db st)) = R"
    and "hc \<longrightarrow> batches \<noteq> [] \<and> \<not> target_batch cat prio (last batches)"
    and "pack_loop c p tasks hc batches st = (hc1, batches1, st1)"
  shows "distinct (map task_id (tbl_tasks (db st1))) \<and>
         filter (target cat prio) (tbl_tasks (db st1)) = R \<and>
         filter (target_batch cat prio) batches1 = filter (target_batch cat prio) batches \<and>
         (hc1 \<longrightarrow> batches1 \<noteq> [] \<and> \<not> target_batch cat prio (last batches1))"
  using assms(2-)
proof (induction tasks arbitrary: hc batches st)
  case Nil
  then show ?case by simp
next
  case (Cons task rest)
  let ?ob = "open_batch c p hc batches st"
  let ?at = "add_task_to_batch (last (fst ?ob)) task"
  let ?b = "fst (snd ?at)"
  let ?t1 = "snd (snd ?at)"
  let ?batches2 = "butlast (fst ?ob) @ [?b]"
  let ?st2 = "save_task ?t1 (snd ?ob)"
  note ob = open_batch_batches [OF Cons.prems(4) assms(1), of st]
  have nb: "\<not> target_batch cat prio ?b"
    using ob by (simp add: target_batch_def add_task_to_batch_keeps)
  have t1: "\<not> target cat prio ?t1" "task_id ?t1 \<notin> task_id ` set R"
    using Cons.prems(1) by (simp_all add: add_task_to_batch_keeps)
  have d2: "distinct (map task_id (tbl_tasks (db ?st2)))"
    using Cons.prems(2) by (simp add: distinct_insert_or_replace)
  have r2: "filter (target cat prio) (tbl_tasks (db ?st2)) = R"
  proof -
    have "filter (target cat prio) (insert_or_replace (row_of_task ?t1) (tbl_tasks (db st))) =
          filter (target cat prio) (tbl_tasks (db st))"
    proof (rule filter_insert_or_replace_other)
      show "\<not> target cat prio (row_of_task ?t1)" using t1(1) by simp
    next
      fix x assume "x \<in> set (tbl_tasks (db st))" "target cat prio x"
      then have "x \<in> set R" using Cons.prems(3) by auto
      then have "task_id x \<in> task_id ` set R" by (rule imageI)
      with t1(2) show "task_id x \<noteq> task_id (row_of_task ?t1)"
        by (metis row_of_task_fields(1))
    qed
    with Cons.prems(3) show ?thesis by simp
  qed
  have b2: "filter (target_batch cat prio) ?batches2 = filter (target_batch cat prio) batches"
    using ob nb filter_butlast_snoc [of "fst ?ob" "target_batch cat prio" ?b] by simp
  have l2: "True \<longrightarrow> ?batches2 \<noteq> [] \<and> \<not> target_batch cat prio (last ?batches2)"
    using nb by simp
  have rec: "pack_loop c p rest True ?batches2 ?st2 = (hc1, batches1, st1)"
    using Cons.prems(5) by (simp only: pack_loop_Cons)
  have rest: "\<forall>t\<in>set rest. \<not> target cat prio t \<and> task_id t \<notin> task_id ` set R"
    using Cons.prems(1) by simp
  from Cons.IH [OF rest d2 r2 l2 rec] b2 show ?case by simp
qed

lemma batch_pair_other:
  assumes "(c, p) \<noteq> (cat, prio)"
    and "distinct (map task_id (tbl_tasks (db st)))"
    and "filter (target cat prio) (tbl_tasks (db st)) = R"
    and "batch_pair p (batches, st) c = (batches1, st1)"
  shows "distinct (map task_id (tbl_tasks (db st1))) \<and>
         filter (target cat prio) (tbl_tasks (db st1)) = R \<and>
         filter (target_batch cat prio) batches1 = filter (target_batch cat prio) batches"
proof -
  let ?tasks = "map row_to_task (filter (target c p) (tbl_tasks (db st)))"
  show ?thesis
  proof (cases "?tasks = []")
    case True
    with assms(4) have "batches1 = batches" "st1 = st"
      by (simp_all add: batch_pair_def pair_tasks)
    with assms(2,3) show ?thesis by simp
  next
    case False
    obtain hc2 batches2 st2 where pl: "pack_loop c p ?tasks False batches st = (hc2, batches2, st2)"
      by (cases "pack_loop c p ?tasks False batches st")
    have others: "\<forall>t\<in>set ?tasks. \<not> target cat prio t \<and> task_id t \<notin> task_id ` set R"
    proof
      fix t assume "t \<in> set ?tasks"
      then obtain r where r: "r \<in> set (tbl_tasks (db st))" "target c p r" "t = row_to_task r"
        by auto
      from r(2) assms(1) have nt: "\<not> target cat prio r"
        by (auto simp: target_def)
      have "task_id r \<notin> task_id ` set R"
      proof
        assume "task_id r \<in> task_id ` set R"
        then obtain r1 where r1: "r1 \<in> set R" "task_id r1 = task_id r" by auto
        with assms(3) have "r1 \<in> set (tbl_tasks (db st))" "target cat prio r1" by auto
        with r(1) r1(2) assms(2) have "r1 = r"
          by (auto simp: distinct_map dest: inj_onD)
        with \<open>target cat prio r1\<close> nt show False by simp
      qed
      with nt r(3) show "\<not> target cat prio t \<and> task_id t \<notin> task_id ` set R" by simp
    qed
    have start: "False \<longrightarrow> batches \<noteq> [] \<and> \<not> target_batch cat prio (last batches)"
      by simp
    note inv = pack_loop_other [OF assms(1) others assms(2,3) start pl]
    from assms(4) False pl
    have "batches1 = batches2" "tbl_tasks (db st1) = tbl_tasks (db st2)"
      by (auto simp: batch_pair_def pair_tasks split: if_splits)
    with inv show ?thesis by simp
  qed
qed

lemma fold_pairs_other:
  assumes "\<forall>(p, c)\<in>set pairs. (c, p) \<noteq> (cat, prio)"
    and "distinct (map task_id (tbl_tasks (db st)))"
    and "filter (target cat prio) (tbl_tasks (db st)) = R"
    and "foldl (\<lambda>acc (p, c). batch_pair p acc c) (batches, st) pairs = (batches1, st1)"
  shows "distinct (map task_id (tbl_tasks (db st1))) \<and>
         filter (target cat prio) (tbl_tasks (db st1)) = R \<and>
         filter (target_batch cat prio) batches1 = filter (target_batch cat prio) batches"
  using assms
proof (induction pairs arbitrary: batches st)
  case Nil
  then show ?case by simp
next
  case (Cons pc pairs)
  obtain p c where pc: "pc = (p, c)" by (cases pc)
  obtain batches2 st2 where bp: "batch_pair p (batches, st) c = (batches2, st2)"
    by (cases "batch_pair p (batches, st) c")
  from Cons.prems(1) pc have ne: "(c, p) \<noteq> (cat, prio)" by simp
  note s = batch_pair_other [OF ne Cons.prems(2,3) bp]
  from Cons.prems(4) pc bp
  have f: "foldl (\<lambda>acc (p, c). batch_pair p acc c) (batches2, st2) pairs = (batches1, st1)"
    by simp
  from Cons.prems(1) have r: "\<forall>(p, c)\<in>set pairs. (c, p) \<noteq> (cat, prio)" by simp
  from Cons.IH [OF r _ _ f] s show ?case by simp
qed

lemma distinct_save_all:
  "distinct (map task_id (tbl_tasks (db st))) \<Longrightarrow>
     distinct (map task_id (tbl_tasks (db (save_all bid xs st))))"
  by (induction xs arbitrary: st) (simp_all add: distinct_insert_or_replace)

lemma kept_insert_or_replace:
  "r \<in> set rows \<Longrightarrow> task_id r \<noteq> task_id r1 \<Longrightarrow> r \<in> set (insert_or_replace r1 rows)"
  by (simp add: insert_or_replace_def)

lemma kept_save_all:
  "r \<in> set (tbl_tasks (db st)) \<Longrightarrow> task_id r \<notin> task_id ` set xs \<Longrightarrow>
     r \<in> set (tbl_tasks (db (save_all bid xs st)))"
proof (induction xs arbitrary: st)
  case Nil
  then show ?case by simp
next
  case (Cons x xs)
  from Cons.prems have "r \<in> set (tbl_tasks (db (save_task (tag bid x) st)))"
    by (simp add: kept_insert_or_replace)
  with Cons show ?case by simp
qed

lemma stored_save_all:
  "distinct (map task_id xs) \<Longrightarrow> t \<in> set xs \<Longrightarrow>
     row_of_task (tag bid t) \<in> set (tbl_tasks (db (save_all bid xs st)))"
proof (induction xs arbitrary: st)
  case Nil
  then show ?case by simp
next
  case (Cons x xs)
  show ?case
  proof (cases "t = x")
    case True
    have "row_of_task (tag bid x) \<in> set (tbl_tasks (db (save_task (tag bid x) st)))"
      by (simp add: insert_or_replace_def)
    moreover from Cons.prems(1) have "task_id (row_of_task (tag bid x)) \<notin> task_id ` set xs"
      by simp
    ultimately show ?thesis
      using True kept_save_all by simp
  next
    case False
    with Cons show ?thesis by simp
  qed
qed

lemma chunk_batch_fields [simp]:
  "b_tasks (chunk_batch c p st xs) = map (tag (chunk_id st)) xs"
  "b_batch_id (chunk_batch c p st xs) = chunk_id st"
  "b_category (chunk_batch c p st xs) = c"
  "b_priority (chunk_batch c p st xs) = p"
  by (simp_all add: chunk_batch_def)

lemma batch_pair_target:
  assumes d: "distinct (map task_id (tbl_tasks (db st)))"
    and R: "filter (target cat prio) (tbl_tasks (db st)) = R"
    and len: "length R = 25"
  shows "\<exists>B1 B2 B3 st1.
           batch_pair prio (batches, st) cat = (batches @ [B1, B2, B3], st1) \<and>
           target_batch cat prio B1 \<and> target_batch cat prio B2 \<and> target_batch cat prio B3 \<and>
           length (b_tasks B1) = 10 \<and> length (b_tasks B2) = 10 \<and> length (b_tasks B3) = 5 \<and>
           map task_id (b_tasks B1) @ map task_id (b_tasks B2) @ map task_id (b_tasks B3) =
             map task_id R \<and>
           distinct (map task_id (tbl_tasks (db st1))) \<and>
           (\<forall>B\<in>{B1, B2, B3}. \<forall>t\<in>set (b_tasks B).
              batch_id t = Some (b_batch_id B) \<and> target cat prio t \<and>
              row_of_task t \<in> set (tbl_tasks (db st1)))"
proof -
  define xs where "xs = map row_to_task R"
  define xs1 where "xs1 = take 10 xs"
  define xs2 where "xs2 = take 10 (drop 10 xs)"
  define xs3 where "xs3 = drop 20 xs"
  define s1 where "s1 = save_all (chunk_id st) xs1 (chunk_start st)"
  define s2 where "s2 = save_all (chunk_id s1) xs2 (chunk_start s1)"
  define s3 where "s3 = save_all (chunk_id s2) xs3 (chunk_start s2)"
  define B1 where "B1 = chunk_batch cat prio st xs1"
  define B2 where "B2 = chunk_batch cat prio s1 xs2"
  define B3 where "B3 = chunk_batch cat prio s2 xs3"
  have lxs: "length xs = 25" by (simp add: xs_def len)
  have split: "xs = xs1 @ xs2 @ xs3"
  proof -
    have "drop 10 xs = xs2 @ xs3"
      using append_take_drop_id [of 10 "drop 10 xs"] by (simp add: xs2_def xs3_def)
    then show ?thesis
      using append_take_drop_id [of 10 xs] by (simp add: xs1_def)
  qed
  have l1: "length xs1 = 10" and l2: "length xs2 = 10" and l3: "length xs3 = 5"
    using lxs by (simp_all add: xs1_def xs2_def xs3_def)
  have tg: "\<forall>t\<in>set xs. target cat prio t"
    using R by (auto simp: xs_def)
  then have cat: "\<forall>t\<in>set xs. category t = cat"
    by (simp add: target_def)
  have dist: "distinct (map task_id xs)"
  proof -
    have "map task_id xs = map task_id R" by (simp add: xs_def)
    moreover have "distinct (map task_id R)"
      using d R distinct_map_filter by blast
    ultimately show ?thesis by simp
  qed
  have d1: "distinct (map task_id xs1)" and d2: "distinct (map task_id xs2)"
    and d3: "distinct (map task_id xs3)"
    and x12: "task_id ` set xs1 \<inter> task_id ` set xs2 = {}"
    and x13: "task_id ` set xs1 \<inter> task_id ` set xs3 = {}"
    and x23: "task_id ` set xs2 \<inter> task_id ` set xs3 = {}"
    using dist unfolding split by auto
  have c1: "\<forall>t\<in>set xs1. category t = cat" and c2: "\<forall>t\<in>set xs2. category t = cat"
    and c3: "\<forall>t\<in>set xs3. category t = cat"
    using cat unfolding split by auto
  have lim: "BATCH_SIZE_LIMIT = 10" by (simp add: BATCH_SIZE_LIMIT_def)
  have p1: "pack_loop cat prio xs False batches st =
            pack_loop cat prio (xs2 @ xs3) True (batches @ [B1]) s1"
    unfolding split B1_def s1_def
    using l1 c1 lim by (intro pack_chunk) auto
  have p2: "pack_loop cat prio (xs2 @ xs3) True (batches @ [B1]) s1 =
            pack_loop cat prio xs3 True ((batches @ [B1]) @ [B2]) s2"
    unfolding B2_def s2_def
    using l1 l2 c2 lim by (intro pack_chunk) (auto simp: B1_def)
  have p3: "pack_loop cat prio (xs3 @ []) True ((batches @ [B1]) @ [B2]) s2 =
            pack_loop cat prio [] True (((batches @ [B1]) @ [B2]) @ [B3]) s3"
    unfolding B3_def s3_def
    using l2 l3 c3 lim by (intro pack_chunk) (auto simp: B2_def)
  have pack: "pack_loop cat prio xs False batches st = (True, batches @ [B1, B2, B3], s3)"
    using p1 p2 p3 by simp
  have ne: "xs \<noteq> []" using lxs by auto
  have bp: "batch_pair prio (batches, st) cat = (batches @ [B1, B2, B3], save_batch B3 s3)"
    using ne pack R by (simp add: batch_pair_def pair_tasks xs_def)
  have dd: "distinct (map task_id (tbl_tasks (db s3)))"
    using d by (simp add: s3_def s2_def s1_def distinct_save_all)
  have st1: "row_of_task (tag (chunk_id st) t) \<in> set (tbl_tasks (db s3))" if "t \<in> set xs1" for t
  proof -
    have "row_of_task (tag (chunk_id st) t) \<in> set (tbl_tasks (db s1))"
      using that d1 by (simp add: s1_def stored_save_all)
    moreover have "task_id (row_of_task (tag (chunk_id st) t)) \<notin> task_id ` set xs2"
      "task_id (row_of_task (tag (chunk_id st) t)) \<notin> task_id ` set xs3"
      using that x12 x13 by auto
    ultimately show ?thesis
      by (simp add: s3_def s2_def kept_save_all)
  qed
  have st2: "row_of_task (tag (chunk_id s1) t) \<in> set (tbl_tasks (db s3))" if "t \<in> set xs2" for t
  proof -
    have "row_of_task (tag (chunk_id s1) t) \<in> set (tbl_tasks (db s2))"
      using that d2 by (simp add: s2_def stored_save_all)
    moreover have "task_id (row_of_task (tag (chunk_id s1) t)) \<notin> task_id ` set xs3"
      using that x23 by auto
    ultimately show ?thesis
      by (simp add: s3_def kept_save_all)
  qed
  have st3: "row_of_task (tag (chunk_id s2) t) \<in> set (tbl_tasks (db s3))" if "t \<in> set xs3" for t
    using that d3 by (simp add: s3_def stored_save_all)
  have ids: "map task_id (b_tasks B1) @ map task_id (b_tasks B2) @ map task_id (b_tasks B3) =
             map task_id R"
  proof -
    have "map task_id (b_tasks B1) @ map task_id (b_tasks B2) @ map task_id (b_tasks B3) =
          map task_id (xs1 @ xs2 @ xs3)"
      by (simp add: B1_def B2_def B3_def o_def)
    also have "\<dots> = map task_id R"
      unfolding split [symmetric] by (simp add: xs_def)
    finally show ?thesis .
  qed
  have t1: "\<forall>t\<in>set xs1. target cat prio t" and t2: "\<forall>t\<in>set xs2. target cat prio t"
    and t3: "\<forall>t\<in>set xs3. target cat prio t"
    using tg unfolding split by auto
  have members: "\<forall>B\<in>{B1, B2, B3}. \<forall>t\<in>set (b_tasks B).
              batch_id t = Some (b_batch_id B) \<and> target cat prio t \<and>
              row_of_task t \<in> set (tbl_tasks (db (save_batch B3 s3)))"
    using st1 st2 st3 t1 t2 t3 by (auto simp: B1_def B2_def B3_def)
  have "target_batch cat prio B1 \<and> target_batch cat prio B2 \<and> target_batch cat prio B3 \<and>
        length (b_tasks B1) = 10 \<and> length (b_tasks B2) = 10 \<and> length (b_tasks B3) = 5"
    using l1 l2 l3 by (simp add: B1_def B2_def B3_def target_batch_def)
  with bp ids dd members show ?thesis
    by (intro exI [of _ B1] exI [of _ B2] exI [of _ B3] exI [of _ "save_batch B3 s3"]) simp
qed

lemma concat_pairs_product:
  "concat (map (\<lambda>p. map (Pair p) cs) ps) = List.product ps cs"
  by (induction ps) simp_all

lemma create_batches_flat:
  "create_batches st =
     foldl (\<lambda>acc (p, c). batch_pair p acc c) ([], st)
       (List.product [P0_CRITICAL, P1_HIGH, P2_MEDIUM, P3_LOW] batch_categories)"
  unfolding create_batches_def foldl_product concat_pairs_product ..

lemma distinct_batch_categories: "distinct batch_categories"
  by (simp add: batch_categories_def)

lemma all_priorities: "p \<in> set [P0_CRITICAL, P1_HIGH, P2_MEDIUM, P3_LOW]"
  by (cases p) simp_all

lemma get_task_stored:
  assumes "distinct (map task_id (tbl_tasks d))" and "row_of_task t \<in> set (tbl_tasks d)"
  shows "map_option batch_id (get_task d (task_id t)) = Some (batch_id t)"
proof -
  from find_distinct_id [OF assms]
  have "find (\<lambda>x. task_id x = task_id t) (tbl_tasks d) = Some (row_of_task t)" by simp
  then show ?thesis by (simp add: get_task_def)
qed

lemma batch_pair_unknown:
  assumes "\<forall>r\<in>set (tbl_tasks (db st)). category r \<noteq> c"
  shows "batch_pair p (batches, st) c = (batches, st)"
proof -
  from assms have "filter (target c p) (tbl_tasks (db st)) = []"
    by (auto simp: filter_empty_conv target_def)
  then show ?thesis
    by (simp add: batch_pair_def pair_tasks)
qed

lemma create_batches_unknown:
  assumes "\<forall>r\<in>set (tbl_tasks (db st)). category r \<notin> set batch_categories"
  shows "create_batches st = ([], st)"
proof -
  have "foldl (\<lambda>acc (p, c). batch_pair p acc c) ([], st) pairs = ([], st)"
    if "\<forall>(p, c)\<in>set pairs. c \<in> set batch_categories" for pairs
    using that
  proof (induction pairs)
    case Nil
    show ?case by simp
  next
    case (Cons pc pairs)
    obtain p c where pc: "pc = (p, c)" by (cases pc)
    with Cons.prems have "c \<in> set batch_categories" by simp
    with assms have "\<forall>r\<in>set (tbl_tasks (db st)). category r \<noteq> c" by auto
    from batch_pair_unknown [OF this] pc Cons show ?case by simp
  qed
  then show ?thesis
    unfolding create_batches_flat by (simp add: set_product)
qed

lemma backlog_category: "\<forall>r\<in>set (tbl_tasks (db (backlog cat))). category r = cat"
  by (simp add: backlog_def new_manager_def example_task_def create_def post_init_def
        row_of_task_def PENDING_def Let_def)

lemma backlog_ids: "distinct (map task_id (tbl_tasks (db (backlog cat))))"
  by (simp add: backlog_def new_manager_def example_task_def create_def post_init_def
        row_of_task_def PENDING_def Let_def str_nat.simps)

lemma backlog_target:
  "length (filter (target cat P2_MEDIUM) (tbl_tasks (db (backlog cat)))) = 25"
  by (simp add: backlog_def new_manager_def example_task_def create_def post_init_def
        row_of_task_def PENDING_def Let_def target_def)

text \<open>
  C8, as the code has it. \<open>create_batches\<close> only visits the ten categories it lists.
  Given a store (task ids are its primary key) whose pending tasks of one of these
  categories and one priority number 25: the batches made for that pair are three, of
  sizes 10, 10 and 5; they hold the 25 tasks; and every task in them carries the
  identifier of its batch, in the object and in the row stored for it.
\<close>

theorem create_batches_25:
  assumes cat: "cat \<in> set batch_categories"
    and d: "distinct (map task_id (tbl_tasks (db st)))"
    and len: "length (filter (target cat prio) (tbl_tasks (db st))) = 25"
  shows "case create_batches st of
           (batches, st1) \<Rightarrow>
             (let bs = filter (target_batch cat prio) batches
              in map (\<lambda>b. length (b_tasks b)) bs = [10, 10, 5] \<and>
                 concat (map (\<lambda>b. map task_id (b_tasks b)) bs) =
                   map task_id (filter (target cat prio) (tbl_tasks (db st))) \<and>
                 (\<forall>b\<in>set bs. \<forall>t\<in>set (b_tasks b).
                    batch_id t = Some (b_batch_id b) \<and>
                    map_option batch_id (get_task (db st1) (task_id t)) =
                      Some (Some (b_batch_id b))))"
proof -
  define pairs where
    "pairs = List.product [P0_CRITICAL, P1_HIGH, P2_MEDIUM, P3_LOW] batch_categories"
  let ?f = "\<lambda>acc (p, c). batch_pair p acc c"
  let ?R = "filter (target cat prio) (tbl_tasks (db st))"
  have dp: "distinct pairs"
    unfolding pairs_def by (intro distinct_product distinct_batch_categories) simp
  have "(prio, cat) \<in> set pairs"
    using cat all_priorities [of prio] unfolding pairs_def set_product by blast
  then obtain pre post where pairs: "pairs = pre @ (prio, cat) # post"
    by (metis split_list)
  from dp have npre: "(prio, cat) \<notin> set pre" and npost: "(prio, cat) \<notin> set post"
    unfolding pairs by auto
  have opre: "\<forall>(p, c)\<in>set pre. (c, p) \<noteq> (cat, prio)"
    using npre by auto
  have opost: "\<forall>(p, c)\<in>set post. (c, p) \<noteq> (cat, prio)"
    using npost by auto
  obtain b0 s0 where f0: "foldl ?f ([], st) pre = (b0, s0)"
    by (cases "foldl ?f ([], st) pre")
  from fold_pairs_other [OF opre d refl f0]
  have d0: "distinct (map task_id (tbl_tasks (db s0)))"
    and R0: "filter (target cat prio) (tbl_tasks (db s0)) = ?R"
    and b0: "filter (target_batch cat prio) b0 = []"
    by simp_all
  from batch_pair_target [OF d0 R0 len, of b0]
  obtain B1 B2 B3 s1 where
    bp: "batch_pair prio (b0, s0) cat = (b0 @ [B1, B2, B3], s1)"
    and tb: "target_batch cat prio B1" "target_batch cat prio B2" "target_batch cat prio B3"
    and sizes: "length (b_tasks B1) = 10" "length (b_tasks B2) = 10" "length (b_tasks B3) = 5"
    and ids: "map task_id (b_tasks B1) @ map task_id (b_tasks B2) @ map task_id (b_tasks B3) =
                map task_id ?R"
    and d1: "distinct (map task_id (tbl_tasks (db s1)))"
    and mem: "\<forall>B\<in>{B1, B2, B3}. \<forall>t\<in>set (b_tasks B).
                batch_id t = Some (b_batch_id B) \<and> target cat prio t \<and>
                row_of_task t \<in> set (tbl_tasks (db s1))"
    by blast
  obtain bF sF where fF: "foldl ?f (b0 @ [B1, B2, B3], s1) post = (bF, sF)"
    by (cases "foldl ?f (b0 @ [B1, B2, B3], s1) post")
  from fold_pairs_other [OF opost d1 refl fF]
  have dF: "distinct (map task_id (tbl_tasks (db sF)))"
    and RF: "filter (target cat prio) (tbl_tasks (db sF)) =
             filter (target cat prio) (tbl_tasks (db s1))"
    and bF: "filter (target_batch cat prio) bF = filter (target_batch cat prio) (b0 @ [B1, B2, B3])"
    by simp_all
  have cb: "create_batches st = (bF, sF)"
    unfolding create_batches_flat pairs_def [symmetric] pairs using f0 bp fF by simp
  have bs: "filter (target_batch cat prio) bF = [B1, B2, B3]"
    using bF b0 tb by simp
  have stored: "map_option batch_id (get_task (db sF) (task_id t)) = Some (Some (b_batch_id B))"
    if "B \<in> {B1, B2, B3}" and "t \<in> set (b_tasks B)" for B t
  proof -
    from mem that have t: "batch_id t = Some (b_batch_id B)" "target cat prio t"
      "row_of_task t \<in> set (tbl_tasks (db s1))" by blast+
    then have "row_of_task t \<in> set (filter (target cat prio) (tbl_tasks (db s1)))"
      by simp
    with RF have "row_of_task t \<in> set (tbl_tasks (db sF))"
      by (metis filter_is_subset subsetD)
    from get_task_stored [OF dF this] t(1) show ?thesis by simp
  qed
  have "\<forall>b\<in>set [B1, B2, B3]. \<forall>t\<in>set (b_tasks b).
          batch_id t = Some (b_batch_id b) \<and>
          map_option batch_id (get_task (db sF) (task_id t)) = Some (Some (b_batch_id b))"
    using mem stored by auto
  with sizes ids show ?thesis
    unfolding cb prod.case Let_def bs by simp
qed

theorem create_batches_25_witness:
  "''backend'' \<in> set batch_categories \<and>
   distinct (map task_id (tbl_tasks (db (backlog ''backend'')))) \<and>
   length (filter (target ''backend'' P2_MEDIUM) (tbl_tasks (db (backlog ''backend'')))) = 25 \<and>
   map (\<lambda>b. length (b_tasks b))
     (filter (target_batch ''backend'' P2_MEDIUM) (fst (create_batches (backlog ''backend'')))) =
     [10, 10, 5]"
proof -
  have c: "''backend'' \<in> set batch_categories"
    by (simp add: batch_categories_def)
  note t = create_batches_25 [OF c backlog_ids backlog_target]
  then have "map (\<lambda>b. length (b_tasks b))
     (filter (target_batch ''backend'' P2_MEDIUM) (fst (create_batches (backlog ''backend'')))) =
     [10, 10, 5]"
    by (simp add: split_beta Let_def)
  with c backlog_ids backlog_target show ?thesis by simp
qed

text \<open>
  C8, as stated, fails for a category that is not among the ten: 25 pending tasks of
  category \<open>x\<close> and priority P2 give no batch at all, and the state is as before.
\<close>

theorem no_batches_for_unlisted_category:
  "''x'' \<notin> set batch_categories \<and>
   distinct (map task_id (tbl_tasks (db (backlog ''x'')))) \<and>
   length (filter (target ''x'' P2_MEDIUM) (tbl_tasks (db (backlog ''x'')))) = 25 \<and>
   create_batches (backlog ''x'') = ([], backlog ''x'')"
proof -
  have c: "''x'' \<notin> set batch_categories"
    by (simp add: batch_categories_def)
  note backlog_category [of "''x''"]
  with c have "\<forall>r\<in>set (tbl_tasks (db (backlog ''x''))). category r \<notin> set batch_categories"
    by simp
  from create_batches_unknown [OF this] c backlog_ids backlog_target show ?thesis
    by simp
qed

end
